theory Spec2Isabelle
  imports Complex_Main "HOL-Library.Multiset" "HOL-Library.Sublist"
begin

section \<open>The order manager of js/tasks.js\<close>

text \<open>
  The class \<^verbatim>\<open>TaskManager\<close> keeps an array of order objects in \<^verbatim>\<open>this.tasks\<close> and
  writes the whole array to \<^verbatim>\<open>localStorage\<close> under the key \<^verbatim>\<open>pizzaOrders\<close> after every
  mutation. The model passes the manager's state explicitly. A reading of the clock
  (\<^verbatim>\<open>Date.now()\<close>, \<^verbatim>\<open>new Date()\<close>, in milliseconds since the epoch), the answer to a
  \<^verbatim>\<open>confirm\<close> dialog and the value of \<^verbatim>\<open>Math.random()\<close> are arguments of the operation
  that asks for them. \<^verbatim>\<open>addTask\<close> reads the clock for the identifier and again for the
  creation time; the model gives both the one reading it is passed. The sweep reads
  the clock in every turn of its loop and is passed the clock itself.
\<close>

subsection \<open>Data\<close>

text \<open>
  An order object. The source keeps \<^verbatim>\<open>due\<close>, \<^verbatim>\<open>created\<close> and \<^verbatim>\<open>completedAt\<close> as date
  strings and reads them back with \<^verbatim>\<open>new Date(...)\<close>; the model holds the instant such a
  string denotes, in milliseconds. \<^verbatim>\<open>due\<close> is never checked by \<^verbatim>\<open>addTask\<close>: it is \<open>None\<close>
  when the string does not denote a date (\<^verbatim>\<open>new Date(task.due)\<close> is then an invalid date,
  and arithmetic and comparisons with it give NaN and false). \<^verbatim>\<open>completedAt\<close> and
  \<^verbatim>\<open>location\<close> are \<open>None\<close> when the property is undefined. \<^verbatim>\<open>status\<close> and \<^verbatim>\<open>priority\<close> are
  the strings the source compares.
\<close>

record order =
  id' :: int
  name :: string
  description :: string
  due :: "int option"
  priority :: string
  status :: string
  created :: int
  completedAt :: "int option"
  location :: "string option"

text \<open>The argument \<^verbatim>\<open>taskData\<close> of \<^verbatim>\<open>addTask\<close> (what \<^verbatim>\<open>getFormData\<close> builds).\<close>

record draft =
  d_name :: string
  d_description :: "string option"
  d_due :: "int option"
  d_priority :: "string option"

text \<open>The argument \<^verbatim>\<open>updatedData\<close> of \<^verbatim>\<open>editTask\<close>: the keys it carries.\<close>

record patch =
  p_id :: "int option"
  p_name :: "string option"
  p_description :: "string option"
  p_due :: "int option option"
  p_priority :: "string option"
  p_status :: "string option"
  p_created :: "int option"
  p_completedAt :: "int option"
  p_location :: "string option"

datatype error = SyntaxError | QuotaExceededError

text \<open>
  The text stored under the key \<^verbatim>\<open>pizzaOrders\<close>. The manager only ever hands
  \<^verbatim>\<open>JSON.stringify(this.tasks)\<close> to \<^verbatim>\<open>setItem\<close>: the JSON text of an array of orders
  (\<open>JsonText\<close>, identified with the array it parses back to), or, when \<^verbatim>\<open>this.tasks\<close> is
  undefined, the value undefined, which \<^verbatim>\<open>setItem\<close> stores as the text
  \<^verbatim>\<open>"undefined"\<close> (\<open>UndefinedText\<close>).
\<close>

datatype stored = JsonText "order list" | UndefinedText

record storage =
  pizzaOrders :: "stored option"
  quotaExceeded :: bool

record env =
  store :: storage
  notifications :: "(string \<times> string) list"

record manager = env +
  tasks :: "order list"
  currentFilter :: string
  currentSort :: string

subsection \<open>Local storage and JSON\<close>

definition getItem :: "storage \<Rightarrow> stored option" where
  "getItem st = pizzaOrders st"

text \<open>\<^verbatim>\<open>setItem\<close> turns its value into a string and throws when the quota is exceeded.\<close>

definition setItem :: "stored option \<Rightarrow> storage \<Rightarrow> error + storage" where
  "setItem v st =
     (if quotaExceeded st then Inl QuotaExceededError
      else Inr (st\<lparr>pizzaOrders := Some (case v of None \<Rightarrow> UndefinedText | Some t \<Rightarrow> t)\<rparr>))"

text \<open>\<^verbatim>\<open>JSON.stringify\<close>: undefined for undefined, the JSON text for an array.\<close>

definition JSON_stringify :: "order list option \<Rightarrow> stored option" where
  "JSON_stringify v = (case v of None \<Rightarrow> None | Some xs \<Rightarrow> Some (JsonText xs))"

text \<open>\<^verbatim>\<open>JSON.parse\<close>: the text \<^verbatim>\<open>"undefined"\<close> is not JSON.\<close>

definition JSON_parse :: "stored \<Rightarrow> error + order list" where
  "JSON_parse t = (case t of JsonText xs \<Rightarrow> Inr xs | UndefinedText \<Rightarrow> Inl SyntaxError)"

subsection \<open>Notifications and saving\<close>

definition showNotification :: "string \<Rightarrow> string \<Rightarrow> 'a env_scheme \<Rightarrow> 'a env_scheme" where
  "showNotification message type e = e\<lparr>notifications := notifications e @ [(message, type)]\<rparr>"

text \<open>
  The body of \<^verbatim>\<open>saveTasks\<close> for a given value of \<^verbatim>\<open>this.tasks\<close> (\<open>None\<close> when it is
  still undefined): the \<^verbatim>\<open>try\<close> stores the text, the \<^verbatim>\<open>catch\<close> shows the notification.
\<close>

definition persist :: "order list option \<Rightarrow> 'a env_scheme \<Rightarrow> 'a env_scheme" where
  "persist v e =
     (case setItem (JSON_stringify v) (store e) of
        Inr st \<Rightarrow> e\<lparr>store := st\<rparr>
      | Inl err \<Rightarrow> showNotification ''Error saving orders'' ''danger'' e)"

definition saveTasks :: "manager \<Rightarrow> manager" where
  "saveTasks s = persist (Some (tasks s)) s"

subsection \<open>Demo data and construction\<close>

definition demoOrders :: "int \<Rightarrow> order list" where
  "demoOrders now =
    [\<lparr>id' = 1001, name = ''Large Pepperoni Pizza'',
      description = ''Extra cheese, double pepperoni, well-done crust'',
      due = Some (now + 15 * 60000), priority = ''high'', status = ''pending'',
      created = now - 5 * 60000, completedAt = None, location = Some ''Aghia Paraskevi''\<rparr>,
     \<lparr>id' = 1002, name = ''Family Size Margherita'',
      description = ''Fresh basil, extra mozzarella, light sauce'',
      due = Some (now + 25 * 60000), priority = ''medium'', status = ''pending'',
      created = now - 10 * 60000, completedAt = None, location = Some ''Chalandri''\<rparr>,
     \<lparr>id' = 1003, name = ''Medium BBQ Chicken Pizza'',
      description = ''No onions, extra BBQ sauce, stuffed crust'',
      due = Some (now + 35 * 60000), priority = ''low'', status = ''pending'',
      created = now - 15 * 60000, completedAt = None, location = Some ''Marousi''\<rparr>,
     \<lparr>id' = 1004, name = ''2x Veggie Supreme Pizzas'',
      description = ''One with gluten-free crust, extra vegetables'',
      due = Some (now - 10 * 60000), priority = ''medium'', status = ''pending'',
      created = now - 45 * 60000, completedAt = None, location = Some ''Kifisia''\<rparr>,
     \<lparr>id' = 1005, name = ''Hawaiian Pizza'',
      description = ''Extra ham, light cheese, pineapple on half'',
      due = Some (now - 30 * 60000), priority = ''high'', status = ''completed'',
      created = now - 60 * 60000, completedAt = Some (now - 25 * 60000),
      location = Some ''Nea Smyrni''\<rparr>,
     \<lparr>id' = 1006, name = ''Meat Lovers Pizza'',
      description = ''All meats, stuffed crust, extra sauce'',
      due = Some (now - 45 * 60000), priority = ''high'', status = ''completed'',
      created = now - 90 * 60000, completedAt = Some (now - 40 * 60000),
      location = Some ''Aghia Paraskevi''\<rparr>,
     \<lparr>id' = 1007, name = ''Four Cheese Pizza'',
      description = ''Add mushrooms and black olives'',
      due = Some (now + 20 * 60000), priority = ''medium'', status = ''pending'',
      created = now - 8 * 60000, completedAt = None, location = Some ''Chalandri''\<rparr>,
     \<lparr>id' = 1008, name = ''Greek Style Pizza'',
      description = ''Feta cheese, Kalamata olives, oregano'',
      due = Some (now + 40 * 60000), priority = ''low'', status = ''pending'',
      created = now - 3 * 60000, completedAt = None, location = Some ''Marousi''\<rparr>]"

text \<open>
  \<^verbatim>\<open>createDemoOrders\<close> runs while the constructor is still evaluating the right-hand side
  of \<^verbatim>\<open>this.tasks = ...\<close>: it builds the array, calls \<^verbatim>\<open>this.saveTasks()\<close> with
  \<^verbatim>\<open>this.tasks\<close> not yet assigned, and returns the array.
\<close>

definition createDemoOrders :: "int \<Rightarrow> env \<Rightarrow> order list \<times> env" where
  "createDemoOrders now e = (let demo = demoOrders now; e' = persist None e in (demo, e'))"

text \<open>
  The constructor, from the storage the page finds. A stored text is truthy, so it is
  parsed, and a text that does not parse makes the constructor throw. \<^verbatim>\<open>init\<close> wires
  handlers and timers and renders; it changes neither the array nor the storage.
\<close>

definition TaskManager :: "int \<Rightarrow> storage \<Rightarrow> error + manager" where
  "TaskManager now st =
     (case getItem st of
        Some storedOrders \<Rightarrow>
          (case JSON_parse storedOrders of
             Inl err \<Rightarrow> Inl err
           | Inr ts \<Rightarrow> Inr \<lparr>store = st, notifications = [], tasks = ts,
                           currentFilter = ''all'', currentSort = ''due''\<rparr>)
      | None \<Rightarrow>
          (case createDemoOrders now \<lparr>store = st, notifications = []\<rparr> of
             (ts, e) \<Rightarrow> Inr \<lparr>store = store e, notifications = notifications e, tasks = ts,
                             currentFilter = ''all'', currentSort = ''due''\<rparr>))"

subsection \<open>Filtering and sorting\<close>

definition filterTasks :: "manager \<Rightarrow> order list \<Rightarrow> order list" where
  "filterTasks s ts =
     (if currentFilter s = ''pending'' then filter (\<lambda>task. status task = ''pending'') ts
      else if currentFilter s = ''completed'' then filter (\<lambda>task. status task = ''completed'') ts
      else ts)"

text \<open>
  \<^verbatim>\<open>Array.prototype.sort\<close> with a comparator. ECMAScript fixes the result when the
  comparator is consistent on the elements: every result is a number (not NaN, here
  \<open>None\<close>), each element equals itself, equality is symmetric and transitive, and less
  and greater are transitive. The result is then the stable ordering: an element moves
  behind another only when the comparator says it is greater, which insertion from the
  right computes. For any other comparator the order is implementation-defined: it is
  what the browser's engine returns, the parameter \<open>engine\<close>.
\<close>

definition consistentComparator :: "('a \<Rightarrow> 'a \<Rightarrow> int option) \<Rightarrow> 'a list \<Rightarrow> bool" where
  "consistentComparator cmp xs =
     list_all (\<lambda>a. list_all (\<lambda>b. list_all (\<lambda>c.
       (case (cmp a a, cmp a b, cmp b a, cmp b c, cmp a c) of
          (Some aa, Some ab, Some ba, Some bc, Some ac) \<Rightarrow>
             aa = 0 \<and> (ab = 0 \<longrightarrow> ba = 0) \<and> (ab = 0 \<and> bc = 0 \<longrightarrow> ac = 0)
             \<and> (ab < 0 \<and> bc < 0 \<longrightarrow> ac < 0) \<and> (0 < ab \<and> 0 < bc \<longrightarrow> 0 < ac)
        | _ \<Rightarrow> False)) xs) xs) xs"

fun insort_by :: "('a \<Rightarrow> 'a \<Rightarrow> int option) \<Rightarrow> 'a \<Rightarrow> 'a list \<Rightarrow> 'a list" where
  "insort_by cmp x [] = [x]"
| "insort_by cmp x (y # ys) =
     (if (case cmp x y of Some v \<Rightarrow> 0 < v | None \<Rightarrow> False) then y # insort_by cmp x ys
      else x # y # ys)"

definition insertionSort :: "('a \<Rightarrow> 'a \<Rightarrow> int option) \<Rightarrow> 'a list \<Rightarrow> 'a list" where
  "insertionSort cmp xs = foldr (insort_by cmp) xs []"

definition Array_sort ::
  "(('a \<Rightarrow> 'a \<Rightarrow> int option) \<Rightarrow> 'a list \<Rightarrow> 'a list) \<Rightarrow> ('a \<Rightarrow> 'a \<Rightarrow> int option) \<Rightarrow> 'a list
   \<Rightarrow> 'a list" where
  "Array_sort engine cmp xs =
     (if consistentComparator cmp xs then insertionSort cmp xs else engine cmp xs)"

text \<open>The lookup \<^verbatim>\<open>priorityOrder[p]\<close>: undefined for any other string.\<close>

definition priorityOrder :: "string \<Rightarrow> int option" where
  "priorityOrder p =
     (if p = ''high'' then Some 3 else if p = ''medium'' then Some 2
      else if p = ''low'' then Some 1 else None)"

text \<open>
  The comparator of \<^verbatim>\<open>sortTasks\<close>. \<^verbatim>\<open>localeCompare\<close> depends on the browser's locale
  and is a parameter. A difference with an undefined operand or with an invalid date
  is not a number.
\<close>

definition compareTasks ::
  "(string \<Rightarrow> string \<Rightarrow> int) \<Rightarrow> manager \<Rightarrow> order \<Rightarrow> order \<Rightarrow> int option" where
  "compareTasks localeCompare s a b =
     (if currentSort s = ''name'' then Some (localeCompare (name a) (name b))
      else if currentSort s = ''priority'' then
        (case (priorityOrder (priority b), priorityOrder (priority a)) of
           (Some pb, Some pa) \<Rightarrow> Some (pb - pa)
         | _ \<Rightarrow> None)
      else
        (case (due a, due b) of
           (Some da, Some db) \<Rightarrow> Some (da - db)
         | _ \<Rightarrow> None))"

definition sortTasks ::
  "((order \<Rightarrow> order \<Rightarrow> int option) \<Rightarrow> order list \<Rightarrow> order list) \<Rightarrow> (string \<Rightarrow> string \<Rightarrow> int)
   \<Rightarrow> manager \<Rightarrow> order list \<Rightarrow> order list" where
  "sortTasks engine localeCompare s ts = Array_sort engine (compareTasks localeCompare s) ts"

subsection \<open>Adding an order\<close>

text \<open>
  \<^verbatim>\<open>String.prototype.trim\<close> removes white space and line terminators from both ends;
  these are the ones among the characters of \<open>char\<close>.
\<close>

definition isWhiteSpace :: "char \<Rightarrow> bool" where
  "isWhiteSpace c =
     (c \<in> set [CHR 0x09, CHR 0x0A, CHR 0x0B, CHR 0x0C, CHR 0x0D, CHR 0x20, CHR 0xA0])"

definition trim :: "string \<Rightarrow> string" where
  "trim str = rev (dropWhile isWhiteSpace (rev (dropWhile isWhiteSpace str)))"

definition locations :: "string list" where
  "locations =
     [''Aghia Paraskevi'', ''Chalandri'', ''Marousi'', ''Kifisia'', ''Nea Smyrni'',
      ''Glyfada'', ''Piraeus'', ''Athens Center'']"

text \<open>
  \<^verbatim>\<open>locations[Math.floor(Math.random() * locations.length)]\<close>, for the value \<open>random\<close>
  that \<^verbatim>\<open>Math.random()\<close> returns; an index outside the array reads undefined.
\<close>

definition getRandomAthensLocation :: "real \<Rightarrow> string option" where
  "getRandomAthensLocation random =
     (let i = \<lfloor>random * real (length locations)\<rfloor>
      in if 0 \<le> i \<and> i < int (length locations) then Some (locations ! nat i) else None)"

definition addTask :: "int \<Rightarrow> real \<Rightarrow> draft \<Rightarrow> manager \<Rightarrow> manager" where
  "addTask now random taskData s =
     (let newTask =
            \<lparr>id' = now,
             name = trim (d_name taskData),
             description =
               (case d_description taskData of
                  None \<Rightarrow> []
                | Some d \<Rightarrow> if trim d = [] then [] else trim d),
             due = d_due taskData,
             priority =
               (case d_priority taskData of
                  None \<Rightarrow> ''medium''
                | Some p \<Rightarrow> if p = [] then ''medium'' else p),
             status = ''pending'',
             created = now,
             completedAt = None,
             location = getRandomAthensLocation random\<rparr>;
          s1 = s\<lparr>tasks := tasks s @ [newTask]\<rparr>;
          s2 = saveTasks s1
      in showNotification (''Order added: '' @ name newTask) ''success'' s2)"

text \<open>
  \<^verbatim>\<open>validateField\<close> on a required text field, and on the \<^verbatim>\<open>datetime-local\<close> field, whose
  value is empty (\<open>None\<close>) or denotes the instant \<open>selectedDate\<close>. An empty value fails
  the test of a required field; where the field is not required it passes, because an
  invalid date is not before \<open>now\<close>.
\<close>

definition validateField_required :: "string \<Rightarrow> bool" where
  "validateField_required v = (if trim v = [] then False else True)"

definition validateField_datetime :: "bool \<Rightarrow> int \<Rightarrow> int option \<Rightarrow> bool" where
  "validateField_datetime required now v =
     (case v of
        None \<Rightarrow> (if required then False else True)
      | Some selectedDate \<Rightarrow> (if selectedDate < now then False else True))"

text \<open>
  Modelled from the spec: the markup of the order form is not among the sources, so the
  fields that carry \<^verbatim>\<open>required\<close> are taken from the spec's Add operation (name non-empty,
  due timestamp present and not in the past). \<^verbatim>\<open>validateOrderForm\<close> asks \<^verbatim>\<open>validateField\<close>
  for each of them.
\<close>

definition validateOrderForm :: "int \<Rightarrow> draft \<Rightarrow> bool" where
  "validateOrderForm now d =
     (validateField_required (d_name d) \<and> validateField_datetime True now (d_due d))"

text \<open>The submit handler of the form: an invalid form adds nothing.\<close>

definition submit :: "int \<Rightarrow> real \<Rightarrow> draft \<Rightarrow> manager \<Rightarrow> manager" where
  "submit now random d s = (if \<not> validateOrderForm now d then s else addTask now random d s)"

subsection \<open>Editing, deleting, completing, clearing\<close>

text \<open>\<^verbatim>\<open>findIndex\<close>: the first index whose element satisfies the test; \<open>None\<close> for -1.\<close>

fun findIndex :: "('a \<Rightarrow> bool) \<Rightarrow> 'a list \<Rightarrow> nat option" where
  "findIndex P [] = None"
| "findIndex P (x # xs) =
     (if P x then Some 0 else (case findIndex P xs of None \<Rightarrow> None | Some i \<Rightarrow> Some (Suc i)))"

text \<open>The spread \<^verbatim>\<open>{ ...task, ...updatedData }\<close>: a key of the patch wins.\<close>

definition merge :: "order \<Rightarrow> patch \<Rightarrow> order" where
  "merge task u =
     \<lparr>id' = (case p_id u of None \<Rightarrow> id' task | Some v \<Rightarrow> v),
      name = (case p_name u of None \<Rightarrow> name task | Some v \<Rightarrow> v),
      description = (case p_description u of None \<Rightarrow> description task | Some v \<Rightarrow> v),
      due = (case p_due u of None \<Rightarrow> due task | Some v \<Rightarrow> v),
      priority = (case p_priority u of None \<Rightarrow> priority task | Some v \<Rightarrow> v),
      status = (case p_status u of None \<Rightarrow> status task | Some v \<Rightarrow> v),
      created = (case p_created u of None \<Rightarrow> created task | Some v \<Rightarrow> v),
      completedAt = (case p_completedAt u of None \<Rightarrow> completedAt task | Some v \<Rightarrow> Some v),
      location = (case p_location u of None \<Rightarrow> location task | Some v \<Rightarrow> Some v)\<rparr>"

definition editTask :: "int \<Rightarrow> patch \<Rightarrow> manager \<Rightarrow> manager" where
  "editTask taskId updatedData s =
     (case findIndex (\<lambda>task. id' task = taskId) (tasks s) of
        None \<Rightarrow> s
      | Some taskIndex \<Rightarrow>
          (let s1 = s\<lparr>tasks := (tasks s)[taskIndex := merge (tasks s ! taskIndex) updatedData]\<rparr>;
               s2 = saveTasks s1
           in showNotification ''Order updated successfully'' ''info'' s2))"

text \<open>\<open>confirmed\<close> is the answer of the \<^verbatim>\<open>confirm\<close> dialog.\<close>

definition deleteTask :: "bool \<Rightarrow> int \<Rightarrow> manager \<Rightarrow> manager" where
  "deleteTask confirmed taskId s =
     (if confirmed then
        (let s1 = s\<lparr>tasks := filter (\<lambda>task. id' task \<noteq> taskId) (tasks s)\<rparr>;
             s2 = saveTasks s1
         in showNotification ''Order deleted'' ''warning'' s2)
      else s)"

text \<open>
  \<^verbatim>\<open>markAsCompleted\<close>: \<^verbatim>\<open>find\<close> returns the first order with the identifier, and the
  assignments change that object where it stands in the array.
\<close>

definition markAsCompleted :: "int \<Rightarrow> int \<Rightarrow> manager \<Rightarrow> manager" where
  "markAsCompleted now taskId s =
     (case findIndex (\<lambda>task. id' task = taskId) (tasks s) of
        None \<Rightarrow> s
      | Some i \<Rightarrow>
          (let task = tasks s ! i in
           if status task \<noteq> ''completed'' then
             (let task' = task\<lparr>status := ''completed'', completedAt := Some now\<rparr>;
                  s1 = s\<lparr>tasks := (tasks s)[i := task']\<rparr>;
                  s2 = saveTasks s1
              in showNotification (''Order delivered: '' @ name task') ''success'' s2)
           else s))"

text \<open>The click handler of the clear-all button.\<close>

definition clearAll :: "bool \<Rightarrow> manager \<Rightarrow> manager" where
  "clearAll confirmed s =
     (if length (tasks s) = 0 then showNotification ''No orders to clear'' ''info'' s
      else if confirmed then
        (let s1 = s\<lparr>tasks := []\<rparr>;
             s2 = saveTasks s1
         in showNotification ''All orders cleared'' ''warning'' s2)
      else s)"

subsection \<open>The periodic sweep\<close>

text \<open>
  One turn of the \<^verbatim>\<open>forEach\<close> in \<^verbatim>\<open>updateTimers\<close>, at index \<open>i\<close> of the array as it
  stands then; \<^verbatim>\<open>markAsCompleted\<close> is called with the identifier of the order. The
  source reads the clock in every turn (\<^verbatim>\<open>const now = new Date()\<close>) and again inside
  \<^verbatim>\<open>markAsCompleted\<close>. \<open>clock\<close> gives the readings of one sweep, two per turn: turn \<open>i\<close>
  reads \<open>clock (2 * i)\<close>, and the \<^verbatim>\<open>markAsCompleted\<close> it calls reads \<open>clock (2 * i + 1)\<close>.
  With an invalid due date \<^verbatim>\<open>timeDiff\<close> is NaN and \<^verbatim>\<open>timeDiff <= 0\<close> is false.
\<close>

definition sweepStep :: "(nat \<Rightarrow> int) \<Rightarrow> manager \<Rightarrow> nat \<Rightarrow> manager" where
  "sweepStep clock s i =
     (let task = tasks s ! i in
      if status task = ''pending'' then
        (case due task of
           None \<Rightarrow> s
         | Some dueDate \<Rightarrow>
             (let now = clock (2 * i);
                  timeDiff = dueDate - now
              in if timeDiff \<le> 0 then
                   (let overdueTime = real_of_int \<bar>timeDiff\<bar> / (1000 * 60) in
                    if overdueTime > 60 then markAsCompleted (clock (2 * i + 1)) (id' task) s
                    else s)
                 else s))
      else s)"

definition updateTimers :: "(nat \<Rightarrow> int) \<Rightarrow> manager \<Rightarrow> manager" where
  "updateTimers clock s = foldl (sweepStep clock) s [0 ..< length (tasks s)]"

text \<open>
  What C5 says the sweep does to the record at index \<open>i\<close>: a pending record due more
  than 60 minutes before the reading of its turn is completed at the reading that
  \<^verbatim>\<open>markAsCompleted\<close> takes; any other record is left as it is. The lemma
  \<open>tasks_updateTimers_distinct\<close> below compares \<open>updateTimers\<close> with it.
\<close>

definition sweptAt :: "(nat \<Rightarrow> int) \<Rightarrow> nat \<Rightarrow> order \<Rightarrow> order" where
  "sweptAt clock i t =
     (if status t = ''pending''
         \<and> (case due t of None \<Rightarrow> False | Some d \<Rightarrow> 60 * 60000 < clock (2 * i) - d)
      then t\<lparr>status := ''completed'', completedAt := Some (clock (2 * i + 1))\<rparr>
      else t)"

text \<open>
  A manager over a writable store that holds nothing yet, with the settings the
  constructor gives; the worked examples below start from it.
\<close>

abbreviation managerOf :: "order list \<Rightarrow> manager" where
  "managerOf ts \<equiv>
     \<lparr>store = \<lparr>pizzaOrders = None, quotaExceeded = False\<rparr>, notifications = [],
      tasks = ts, currentFilter = ''all'', currentSort = ''due''\<rparr>"

section \<open>Properties\<close>

subsection \<open>Auxiliary facts\<close>

lemma demoOrders_length: "length (demoOrders now) = 8"
  by (simp add: demoOrders_def)

lemma tasks_showNotification [simp]: "tasks (showNotification m t s) = tasks s"
  by (simp add: showNotification_def)

lemma tasks_persist [simp]: "tasks (persist v s) = tasks s"
  by (simp add: persist_def showNotification_def split: sum.splits)

lemma tasks_saveTasks [simp]: "tasks (saveTasks s) = tasks s"
  by (simp add: saveTasks_def)

lemma findIndex_None: "findIndex P xs = None \<longleftrightarrow> (\<forall>x \<in> set xs. \<not> P x)"
  by (induction xs) (auto split: option.splits)

lemma findIndex_Some:
  "findIndex P xs = Some i \<Longrightarrow> i < length xs \<and> P (xs ! i) \<and> (\<forall>j < i. \<not> P (xs ! j))"
proof (induction xs arbitrary: i)
  case Nil
  then show ?case by simp
next
  case (Cons x xs)
  show ?case
  proof (cases "P x")
    case True
    with Cons.prems show ?thesis by simp
  next
    case False
    with Cons.prems obtain k where k: "findIndex P xs = Some k" "i = Suc k"
      by (auto split: option.splits)
    from Cons.IH [OF k(1)] False k(2) show ?thesis
      by (auto simp: nth_Cons split: nat.splits)
  qed
qed

lemma findIndex_update_same:
  "findIndex P xs = Some i \<Longrightarrow> P y \<Longrightarrow> findIndex P (xs[i := y]) = Some i"
proof (induction xs arbitrary: i)
  case Nil
  then show ?case by simp
next
  case (Cons x xs)
  then show ?case
    by (cases "P x") (auto split: option.splits)
qed

lemma markAsCompleted_idem:
  "markAsCompleted now2 taskId (markAsCompleted now1 taskId s) = markAsCompleted now1 taskId s"
proof (cases "findIndex (\<lambda>task. id' task = taskId) (tasks s)")
  case None
  then show ?thesis by (simp add: markAsCompleted_def)
next
  case (Some i)
  note fi = findIndex_Some [OF Some]
  show ?thesis
  proof (cases "status (tasks s ! i) = ''completed''")
    case True
    with Some show ?thesis by (simp add: markAsCompleted_def)
  next
    case False
    let ?t = "(tasks s ! i)\<lparr>status := ''completed'', completedAt := Some now1\<rparr>"
    have t1: "tasks (markAsCompleted now1 taskId s) = (tasks s)[i := ?t]"
      using Some False by (simp add: markAsCompleted_def Let_def)
    have "findIndex (\<lambda>task. id' task = taskId) ((tasks s)[i := ?t]) = Some i"
      using Some fi by (intro findIndex_update_same) auto
    moreover have "status (((tasks s)[i := ?t]) ! i) = ''completed''"
      using fi by simp
    ultimately show ?thesis
      by (simp add: markAsCompleted_def [of now2] t1)
  qed
qed

lemma tasks_deleteTask:
  "tasks (deleteTask True taskId s) = filter (\<lambda>task. id' task \<noteq> taskId) (tasks s)"
  by (simp add: deleteTask_def Let_def)

lemma filter_neq_remove1:
  "distinct (map f xs) \<Longrightarrow> x \<in> set xs \<Longrightarrow> filter (\<lambda>y. f y \<noteq> f x) xs = remove1 x xs"
proof (induction xs)
  case Nil
  then show ?case by simp
next
  case (Cons a xs)
  show ?case
  proof (cases "a = x")
    case True
    with Cons.prems have "\<forall>y \<in> set xs. f y \<noteq> f x" by (auto simp: image_iff)
    then have "filter (\<lambda>y. f y \<noteq> f x) xs = xs" by (simp add: filter_id_conv)
    with True show ?thesis by simp
  next
    case False
    with Cons.prems have "x \<in> set xs" "f a \<noteq> f x" by auto
    with Cons False show ?thesis by auto
  qed
qed


lemma filterTasks_pending:
  "filterTasks (s\<lparr>currentFilter := ''pending''\<rparr>) ts = filter (\<lambda>task. status task = ''pending'') ts"
  by (simp add: filterTasks_def)

lemma filterTasks_completed:
  "filterTasks (s\<lparr>currentFilter := ''completed''\<rparr>) ts
   = filter (\<lambda>task. status task = ''completed'') ts"
  by (simp add: filterTasks_def)

lemma mset_filter_two:
  "\<forall>x \<in> set xs. (P x \<or> Q x) \<and> \<not> (P x \<and> Q x) \<Longrightarrow> mset (filter P xs) + mset (filter Q xs) = mset xs"
  by (induction xs) auto


lemma trim_Margherita: "trim ''Margherita'' = ''Margherita''"
  by (simp add: trim_def isWhiteSpace_def)


lemma compareTasks_due:
  "currentSort s \<noteq> ''name'' \<Longrightarrow> currentSort s \<noteq> ''priority'' \<Longrightarrow>
   due a = Some x \<Longrightarrow> due b = Some y \<Longrightarrow> compareTasks lc s a b = Some (x - y)"
  by (simp add: compareTasks_def)

lemma consistentComparator_due:
  assumes "currentSort s \<noteq> ''name''" "currentSort s \<noteq> ''priority''"
    and "\<forall>t \<in> set ts. due t \<noteq> None"
  shows "consistentComparator (compareTasks lc s) ts"
proof -
  have "case (compareTasks lc s a a, compareTasks lc s a b, compareTasks lc s b a,
              compareTasks lc s b c, compareTasks lc s a c) of
          (Some aa, Some ab, Some ba, Some bc, Some ac) \<Rightarrow>
             aa = 0 \<and> (ab = 0 \<longrightarrow> ba = 0) \<and> (ab = 0 \<and> bc = 0 \<longrightarrow> ac = 0)
             \<and> (ab < 0 \<and> bc < 0 \<longrightarrow> ac < 0) \<and> (0 < ab \<and> 0 < bc \<longrightarrow> 0 < ac)
        | _ \<Rightarrow> False"
    if "a \<in> set ts" "b \<in> set ts" "c \<in> set ts" for a b c
  proof -
    from that assms(3) have "due a \<noteq> None" "due b \<noteq> None" "due c \<noteq> None"
      by blast+
    then obtain x y z where "due a = Some x" "due b = Some y" "due c = Some z"
      by blast
    then show ?thesis
      using assms(1,2) by (simp add: compareTasks_due)
  qed
  then show ?thesis
    by (simp add: consistentComparator_def list_all_iff)
qed

lemma insort_by_due:
  "currentSort s \<noteq> ''name'' \<Longrightarrow> currentSort s \<noteq> ''priority'' \<Longrightarrow>
   due x \<noteq> None \<Longrightarrow> \<forall>t \<in> set ys. due t \<noteq> None \<Longrightarrow>
   insort_by (compareTasks lc s) x ys = insort_key (\<lambda>t. the (due t)) x ys"
  by (induction ys) (auto simp: compareTasks_def)

lemma insertionSort_due:
  "currentSort s \<noteq> ''name'' \<Longrightarrow> currentSort s \<noteq> ''priority'' \<Longrightarrow>
   \<forall>t \<in> set ts. due t \<noteq> None \<Longrightarrow>
   insertionSort (compareTasks lc s) ts = sort_key (\<lambda>t. the (due t)) ts"
  by (induction ts) (simp_all add: insertionSort_def insort_by_due)

lemma sortTasks_due:
  "currentSort s \<noteq> ''name'' \<Longrightarrow> currentSort s \<noteq> ''priority'' \<Longrightarrow>
   \<forall>t \<in> set ts. due t \<noteq> None \<Longrightarrow>
   sortTasks engine lc s ts = sort_key (\<lambda>t. the (due t)) ts"
  by (simp add: sortTasks_def Array_sort_def consistentComparator_due insertionSort_due)


lemma invalid_due_not_ascending:
  assumes t: "t \<in> set ys" "due t = None" and l: "2 \<le> length ys"
  shows "\<not> sorted_wrt (\<lambda>a b. case (due a, due b) of (Some x, Some y) \<Rightarrow> x \<le> y | _ \<Rightarrow> False) ys"
proof
  let ?P = "\<lambda>a b. case (due a, due b) of (Some x, Some y) \<Rightarrow> x \<le> y | _ \<Rightarrow> False"
  assume s: "sorted_wrt ?P ys"
  from t(1) obtain j where j: "j < length ys" "ys ! j = t"
    by (auto simp: in_set_conv_nth)
  from l j(1) obtain i where i: "i < length ys" "i \<noteq> j"
    by (cases "j = 0") (auto intro: that [of 0] that [of 1])
  show False
  proof (cases "i < j")
    case True
    with s j(1) have "?P (ys ! i) (ys ! j)"
      by (simp add: sorted_wrt_iff_nth_less)
    with j(2) t(2) show False by (simp split: option.splits)
  next
    case False
    with i have "j < i" by simp
    with s i(1) have "?P (ys ! j) (ys ! i)"
      by (simp add: sorted_wrt_iff_nth_less)
    with j(2) t(2) show False by simp
  qed
qed

lemma tasks_addTask_cong:
  "tasks s = tasks s' \<Longrightarrow> tasks (addTask now r d s) = tasks (addTask now r d s')"
  by (simp add: addTask_def Let_def)

lemma tasks_editTask_cong:
  "tasks s = tasks s' \<Longrightarrow> tasks (editTask i u s) = tasks (editTask i u s')"
  by (simp add: editTask_def Let_def split: option.splits)

lemma tasks_deleteTask_cong:
  "tasks s = tasks s' \<Longrightarrow> tasks (deleteTask c i s) = tasks (deleteTask c i s')"
  by (simp add: deleteTask_def Let_def)

lemma tasks_markAsCompleted_cong:
  "tasks s = tasks s' \<Longrightarrow> tasks (markAsCompleted now i s) = tasks (markAsCompleted now i s')"
  by (simp add: markAsCompleted_def Let_def split: option.splits)

lemma tasks_clearAll_cong:
  "tasks s = tasks s' \<Longrightarrow> tasks (clearAll c s) = tasks (clearAll c s')"
  by (simp add: clearAll_def Let_def)

lemma tasks_sweepStep_cong:
  "tasks s = tasks s' \<Longrightarrow> tasks (sweepStep clock s i) = tasks (sweepStep clock s' i)"
proof -
  assume t: "tasks s = tasks s'"
  have m: "\<And>now k. tasks (markAsCompleted now k s) = tasks (markAsCompleted now k s')"
    using t by (rule tasks_markAsCompleted_cong)
  show ?thesis
    by (simp add: sweepStep_def Let_def t m split: option.splits)
qed

lemma tasks_foldl_sweepStep_cong:
  "tasks s = tasks s' \<Longrightarrow>
   tasks (foldl (sweepStep clock) s is) = tasks (foldl (sweepStep clock) s' is)"
proof (induction "is" arbitrary: s s')
  case Nil
  then show ?case by simp
next
  case (Cons i "is")
  from Cons.prems have "tasks (sweepStep clock s i) = tasks (sweepStep clock s' i)"
    by (rule tasks_sweepStep_cong)
  then have "tasks (foldl (sweepStep clock) (sweepStep clock s i) is)
      = tasks (foldl (sweepStep clock) (sweepStep clock s' i) is)"
    by (rule Cons.IH)
  then show ?case by simp
qed

lemma tasks_updateTimers_cong:
  "tasks s = tasks s' \<Longrightarrow> tasks (updateTimers clock s) = tasks (updateTimers clock s')"
proof -
  assume t: "tasks s = tasks s'"
  then have "tasks (foldl (sweepStep clock) s [0 ..< length (tasks s')])
      = tasks (foldl (sweepStep clock) s' [0 ..< length (tasks s')])"
    by (rule tasks_foldl_sweepStep_cong)
  with t show ?thesis
    by (simp add: updateTimers_def)
qed

lemma saveTasks_quota:
  "quotaExceeded (store s) \<Longrightarrow> saveTasks s = showNotification ''Error saving orders'' ''danger'' s"
  by (simp add: saveTasks_def persist_def setItem_def)


lemma overdue_more_than_hour:
  "(real_of_int \<bar>d\<bar> / (1000 * 60) > 60) = (\<bar>d\<bar> > 60 * 60000)"
proof -
  have "(real_of_int \<bar>d\<bar> / (1000 * 60) > 60) = (real_of_int \<bar>d\<bar> > real_of_int (60 * 60000))"
    by (simp add: field_simps)
  also have "\<dots> = (\<bar>d\<bar> > 60 * 60000)"
    by (simp only: of_int_less_iff)
  finally show ?thesis .
qed

lemma findIndex_distinct:
  "distinct (map f xs) \<Longrightarrow> k < length xs \<Longrightarrow> findIndex (\<lambda>t. f t = f (xs ! k)) xs = Some k"
proof (induction xs arbitrary: k)
  case Nil
  then show ?case by simp
next
  case (Cons x xs)
  show ?case
  proof (cases k)
    case 0
    then show ?thesis by simp
  next
    case (Suc j)
    with Cons.prems have j: "j < length xs" and d: "distinct (map f xs)"
      and nx: "f x \<notin> f ` set xs"
      by auto
    from j have "xs ! j \<in> set xs" by simp
    with nx have "f x \<noteq> f (xs ! j)" by auto
    moreover from Cons.IH [OF d j] have "findIndex (\<lambda>t. f t = f (xs ! j)) xs = Some j" .
    ultimately show ?thesis using Suc by simp
  qed
qed

lemma tasks_markAsCompleted_at:
  "findIndex (\<lambda>task. id' task = taskId) (tasks s) = Some i \<Longrightarrow>
   status (tasks s ! i) \<noteq> ''completed'' \<Longrightarrow>
   tasks (markAsCompleted now taskId s)
     = (tasks s)[i := (tasks s ! i)\<lparr>status := ''completed'', completedAt := Some now\<rparr>]"
  by (simp add: markAsCompleted_def Let_def)

lemma map_update_same: "(map f xs)[i := f (xs ! i)] = map f xs"
  by (metis list_update_id map_update)

lemma ids_markAsCompleted:
  "map id' (tasks (markAsCompleted now taskId s)) = map id' (tasks s)"
proof (cases "findIndex (\<lambda>task. id' task = taskId) (tasks s)")
  case None
  then show ?thesis by (simp add: markAsCompleted_def)
next
  case (Some i)
  then show ?thesis
    by (simp add: markAsCompleted_def Let_def map_update map_update_same)
qed

lemma ids_sweepStep: "map id' (tasks (sweepStep clock s i)) = map id' (tasks s)"
  by (simp add: sweepStep_def Let_def ids_markAsCompleted split: option.splits)

lemma ids_foldl_sweepStep: "map id' (tasks (foldl (sweepStep clock) s is)) = map id' (tasks s)"
  by (induction "is" arbitrary: s) (simp_all add: ids_sweepStep)

lemma ids_updateTimers: "map id' (tasks (updateTimers clock s)) = map id' (tasks s)"
  by (simp add: updateTimers_def ids_foldl_sweepStep)

lemma ids_addTask: "map id' (tasks (addTask now r d s)) = map id' (tasks s) @ [now]"
  by (simp add: addTask_def Let_def)

lemma ids_editTask:
  "p_id u = None \<Longrightarrow> map id' (tasks (editTask taskId u s)) = map id' (tasks s)"
  by (simp add: editTask_def Let_def map_update merge_def map_update_same split: option.splits)

lemma ids_deleteTask:
  "map id' (tasks (deleteTask c taskId s))
   = (if c then filter (\<lambda>i. i \<noteq> taskId) (map id' (tasks s)) else map id' (tasks s))"
  by (simp add: deleteTask_def Let_def filter_map comp_def)

lemma ids_clearAll:
  "map id' (tasks (clearAll c s)) = (if c then [] else map id' (tasks s))"
  by (simp add: clearAll_def Let_def)

lemma ids_foldl_addTask:
  "map id' (tasks (foldl (\<lambda>s' a. addTask (fst a) (fst (snd a)) (snd (snd a)) s') s adds))
   = map id' (tasks s) @ map fst adds"
  by (induction adds arbitrary: s) (simp_all add: ids_addTask)


lemma upt_prefix_update:
  "k < length ts \<Longrightarrow>
   (map h [0 ..< k] @ drop k ts)[k := h k] = map h [0 ..< Suc k] @ drop (Suc k) ts"
proof -
  assume k: "k < length ts"
  then have "drop k ts = ts ! k # drop (Suc k) ts"
    by (simp add: Cons_nth_drop_Suc)
  moreover have "length (map h [0 ..< k]) = k"
    by simp
  ultimately show ?thesis
    by (simp add: list_update_append)
qed

lemma overdue_test:
  "(d - now \<le> 0 \<and> real_of_int \<bar>d - now\<bar> / (1000 * 60) > 60) = (60 * 60000 < now - d)"
  by (auto simp: overdue_more_than_hour)

lemma sweepStep_at:
  assumes fi: "findIndex (\<lambda>task. id' task = id' (tasks s ! i)) (tasks s) = Some i"
  shows "tasks (sweepStep clock s i) = (tasks s)[i := sweptAt clock i (tasks s ! i)]"
proof (cases "status (tasks s ! i) = ''pending''
    \<and> (case due (tasks s ! i) of None \<Rightarrow> False | Some d \<Rightarrow> 60 * 60000 < clock (2 * i) - d)")
  case True
  then obtain d where d: "due (tasks s ! i) = Some d" "60 * 60000 < clock (2 * i) - d"
    and p: "status (tasks s ! i) = ''pending''"
    by (auto split: option.splits)
  from d(2) have t: "d - clock (2 * i) \<le> 0"
    "real_of_int \<bar>d - clock (2 * i)\<bar> / (1000 * 60) > 60"
    using overdue_test [of d "clock (2 * i)"] by simp_all
  from p have nc: "status (tasks s ! i) \<noteq> ''completed''" by simp
  have "sweepStep clock s i = markAsCompleted (clock (2 * i + 1)) (id' (tasks s ! i)) s"
    using p d(1) t by (simp add: sweepStep_def Let_def)
  then have "tasks (sweepStep clock s i)
      = (tasks s)[i := (tasks s ! i)\<lparr>status := ''completed'',
                                       completedAt := Some (clock (2 * i + 1))\<rparr>]"
    using tasks_markAsCompleted_at [OF fi nc] by simp
  moreover have "sweptAt clock i (tasks s ! i)
      = (tasks s ! i)\<lparr>status := ''completed'', completedAt := Some (clock (2 * i + 1))\<rparr>"
    using p d by (simp add: sweptAt_def)
  ultimately show ?thesis by simp
next
  case False
  then have "sweepStep clock s i = s"
    using overdue_test by (auto simp: sweepStep_def Let_def split: option.splits)
  moreover from False have "sweptAt clock i (tasks s ! i) = tasks s ! i"
    by (auto simp: sweptAt_def split: option.splits)
  ultimately show ?thesis by simp
qed

lemma sweep_prefix:
  assumes d: "distinct (map id' (tasks s))"
  shows "k \<le> length (tasks s) \<Longrightarrow>
    tasks (foldl (sweepStep clock) s [0 ..< k])
      = map (\<lambda>i. sweptAt clock i (tasks s ! i)) [0 ..< k] @ drop k (tasks s)"
proof (induction k)
  case 0
  then show ?case by simp
next
  case (Suc k)
  let ?ts = "tasks s"
  let ?sk = "foldl (sweepStep clock) s [0 ..< k]"
  let ?h = "\<lambda>i. sweptAt clock i (?ts ! i)"
  from Suc.prems have k: "k < length ?ts" by simp
  from Suc.IH k have L: "tasks ?sk = map ?h [0 ..< k] @ drop k ?ts" by simp
  have ids: "map id' (tasks ?sk) = map id' ?ts"
    by (rule ids_foldl_sweepStep)
  have len: "length (tasks ?sk) = length ?ts"
    using ids by (metis length_map)
  have nth: "tasks ?sk ! k = ?ts ! k"
    using k by (simp add: L nth_append)
  have "findIndex (\<lambda>task. id' task = id' (tasks ?sk ! k)) (tasks ?sk) = Some k"
    using findIndex_distinct [of id' "tasks ?sk" k] d ids len k by simp
  then have "tasks (sweepStep clock ?sk k) = (tasks ?sk)[k := sweptAt clock k (tasks ?sk ! k)]"
    by (rule sweepStep_at)
  then have "tasks (sweepStep clock ?sk k) = (tasks ?sk)[k := ?h k]"
    by (simp only: nth)
  then have step: "tasks (sweepStep clock ?sk k) = (map ?h [0 ..< k] @ drop k ?ts)[k := ?h k]"
    by (simp only: L)
  have "tasks (foldl (sweepStep clock) s [0 ..< Suc k]) = tasks (sweepStep clock ?sk k)"
    by simp
  also have "\<dots> = map ?h [0 ..< Suc k] @ drop (Suc k) ?ts"
    unfolding step using k by (rule upt_prefix_update)
  finally show ?case .
qed

lemma tasks_updateTimers_distinct:
  "distinct (map id' (tasks s)) \<Longrightarrow>
   tasks (updateTimers clock s)
     = map (\<lambda>i. sweptAt clock i (tasks s ! i)) [0 ..< length (tasks s)]"
  using sweep_prefix [of s "length (tasks s)" clock] by (simp add: updateTimers_def)

lemma nth_updateTimers_distinct:
  "distinct (map id' (tasks s)) \<Longrightarrow> i < length (tasks s) \<Longrightarrow>
   tasks (updateTimers clock s) ! i = sweptAt clock i (tasks s ! i)"
  by (simp add: tasks_updateTimers_distinct)

lemma store_addTask:
  "\<not> quotaExceeded (store s) \<Longrightarrow>
   getItem (store (addTask now r d s)) = Some (JsonText (tasks (addTask now r d s)))"
  by (simp add: addTask_def Let_def saveTasks_def persist_def setItem_def JSON_stringify_def
      getItem_def showNotification_def)

lemma TaskManager_JsonText:
  "getItem st = Some (JsonText ts) \<Longrightarrow>
   TaskManager later st = Inr \<lparr>store = st, notifications = [], tasks = ts,
                                currentFilter = ''all'', currentSort = ''due''\<rparr>"
  by (simp add: TaskManager_def JSON_parse_def)

lemma tasks_addTask:
  "tasks (addTask now r d s) =
     tasks s @
     [\<lparr>id' = now, name = trim (d_name d),
       description = (case d_description d of None \<Rightarrow> [] | Some x \<Rightarrow> trim x),
       due = d_due d,
       priority = (case d_priority d of None \<Rightarrow> ''medium''
                   | Some p \<Rightarrow> if p = [] then ''medium'' else p),
       status = ''pending'', created = now, completedAt = None,
       location = getRandomAthensLocation r\<rparr>]"
  by (simp add: addTask_def Let_def split: option.splits)


lemma trim_padded_Margherita: "trim '' Margherita '' = ''Margherita''"
  by (simp add: trim_def isWhiteSpace_def)


lemma last_dropWhile: "dropWhile P xs \<noteq> [] \<Longrightarrow> last (dropWhile P xs) = last xs"
  by (induction xs) (auto split: if_splits)

lemma trim_decompose:
  "\<exists>pre post. str = pre @ trim str @ post \<and> list_all isWhiteSpace pre \<and> list_all isWhiteSpace post"
proof -
  let ?m = "dropWhile isWhiteSpace str"
  let ?pre = "takeWhile isWhiteSpace str"
  let ?post = "rev (takeWhile isWhiteSpace (rev ?m))"
  have "rev (takeWhile isWhiteSpace (rev ?m) @ dropWhile isWhiteSpace (rev ?m)) = rev (rev ?m)"
    by (simp only: takeWhile_dropWhile_id)
  then have "rev (dropWhile isWhiteSpace (rev ?m)) @ ?post = ?m"
    by (simp only: rev_append rev_rev_ident)
  then have m: "?m = trim str @ ?post"
    by (simp only: trim_def)
  have "str = ?pre @ ?m" by simp
  with m have "str = ?pre @ trim str @ ?post" by simp
  moreover have "list_all isWhiteSpace ?pre"
    by (auto simp: list_all_iff dest: set_takeWhileD)
  moreover have "list_all isWhiteSpace ?post"
    by (auto simp: list_all_iff dest: set_takeWhileD)
  ultimately show ?thesis by blast
qed

lemma trim_ends:
  assumes "trim str \<noteq> []"
  shows "\<not> isWhiteSpace (hd (trim str))" and "\<not> isWhiteSpace (last (trim str))"
proof -
  let ?m = "dropWhile isWhiteSpace str"
  let ?r = "dropWhile isWhiteSpace (rev ?m)"
  from assms have r: "?r \<noteq> []" by (simp add: trim_def)
  have "?r = []" if "?m = []"
    using that by (simp only: rev.simps dropWhile.simps)
  with r have m: "?m \<noteq> []" by blast
  have "last (trim str) = hd ?r"
    using r by (simp add: trim_def last_rev)
  with r show "\<not> isWhiteSpace (last (trim str))"
    by (simp add: hd_dropWhile)
  have "hd (trim str) = last ?r"
    using r by (simp add: trim_def hd_rev)
  also have "\<dots> = last (rev ?m)"
    using r by (rule last_dropWhile)
  also have "\<dots> = hd ?m"
    using m by (simp add: last_rev)
  finally show "\<not> isWhiteSpace (hd (trim str))"
    using m by (simp add: hd_dropWhile)
qed

lemma getRandomAthensLocation_range:
  assumes "0 \<le> r" "r < 1"
  shows "getRandomAthensLocation r \<in> Some ` set locations"
proof -
  have len: "length locations = 8" by (simp add: locations_def)
  let ?i = "\<lfloor>r * 8\<rfloor>"
  from assms have "0 \<le> r * 8" "r * 8 < 8" by simp_all
  then have i: "0 \<le> ?i" "?i < 8" by (simp_all add: floor_less_iff)
  then have "nat ?i < 8" by linarith
  then have "nat ?i < length locations" by (simp only: len)
  then have "locations ! nat ?i \<in> set locations" by (rule nth_mem)
  with i show ?thesis
    by (simp add: getRandomAthensLocation_def len)
qed

subsection \<open>C1: construction over an empty store\<close>

text \<open>
  C1. With nothing stored under the key, the constructor fills the array with the eight
  demo orders. \<^verbatim>\<open>createDemoOrders\<close> calls \<^verbatim>\<open>saveTasks\<close> before the constructor has assigned
  \<^verbatim>\<open>this.tasks\<close>, so what reaches the store is the text \<^verbatim>\<open>"undefined"\<close>, not the demo
  set, and a later construction from that store throws a syntax error instead of
  yielding the demo set.
\<close>

theorem constructor_saves_before_assignment:
  "TaskManager now \<lparr>pizzaOrders = None, quotaExceeded = False\<rparr> =
     Inr \<lparr>store = \<lparr>pizzaOrders = Some UndefinedText, quotaExceeded = False\<rparr>,
          notifications = [], tasks = demoOrders now,
          currentFilter = ''all'', currentSort = ''due''\<rparr>
   \<and> length (demoOrders now) = 8
   \<and> TaskManager later \<lparr>pizzaOrders = Some UndefinedText, quotaExceeded = False\<rparr> =
       Inl SyntaxError"
  by (simp add: TaskManager_def getItem_def createDemoOrders_def persist_def setItem_def
      JSON_stringify_def JSON_parse_def demoOrders_length)

subsection \<open>C2: adding, then loading\<close>

text \<open>
  C2, as amended. For every valid draft, when the store accepts the write, constructing
  a manager from the store that \<^verbatim>\<open>addTask\<close> leaves succeeds, and its collection is the
  previous collection followed by exactly one new record: its name is the draft's name
  without the surrounding white space, its description the draft's description without
  the surrounding white space (empty when the draft has none), its due time the
  draft's, its priority the draft's (\<^verbatim>\<open>medium\<close> when the draft has none or an empty
  one), its status \<^verbatim>\<open>pending\<close>, and it has no completion time.
\<close>

theorem addTask_then_load:
  "validateOrderForm now taskData \<and> \<not> quotaExceeded (store s) \<longrightarrow>
     (\<exists>s' new. TaskManager later (store (addTask now r taskData s)) = Inr s'
        \<and> tasks s' = tasks s @ [new]
        \<and> name new = trim (d_name taskData)
        \<and> description new = (case d_description taskData of None \<Rightarrow> [] | Some x \<Rightarrow> trim x)
        \<and> due new = d_due taskData
        \<and> priority new = (case d_priority taskData of None \<Rightarrow> ''medium''
                          | Some p \<Rightarrow> if p = [] then ''medium'' else p)
        \<and> status new = ''pending''
        \<and> completedAt new = None)"
proof
  assume a: "validateOrderForm now taskData \<and> \<not> quotaExceeded (store s)"
  let ?new = "\<lparr>id' = now, name = trim (d_name taskData),
       description = (case d_description taskData of None \<Rightarrow> [] | Some x \<Rightarrow> trim x),
       due = d_due taskData,
       priority = (case d_priority taskData of None \<Rightarrow> ''medium''
                   | Some p \<Rightarrow> if p = [] then ''medium'' else p),
       status = ''pending'', created = now, completedAt = None,
       location = getRandomAthensLocation r\<rparr>"
  let ?s' = "\<lparr>store = store (addTask now r taskData s), notifications = [],
              tasks = tasks s @ [?new], currentFilter = ''all'', currentSort = ''due''\<rparr>"
  from a have "getItem (store (addTask now r taskData s))
      = Some (JsonText (tasks (addTask now r taskData s)))"
    by (simp add: store_addTask)
  then have "TaskManager later (store (addTask now r taskData s)) = Inr ?s'"
    by (simp add: TaskManager_JsonText tasks_addTask)
  moreover have "tasks ?s' = tasks s @ [?new]" by simp
  ultimately show "\<exists>s' new. TaskManager later (store (addTask now r taskData s)) = Inr s'
        \<and> tasks s' = tasks s @ [new]
        \<and> name new = trim (d_name taskData)
        \<and> description new = (case d_description taskData of None \<Rightarrow> [] | Some x \<Rightarrow> trim x)
        \<and> due new = d_due taskData
        \<and> priority new = (case d_priority taskData of None \<Rightarrow> ''medium''
                          | Some p \<Rightarrow> if p = [] then ''medium'' else p)
        \<and> status new = ''pending''
        \<and> completedAt new = None"
    by (intro exI [of _ ?s'] exI [of _ ?new]) simp
qed

theorem addTask_then_load_witness:
  "validateOrderForm 1000
     \<lparr>d_name = '' Margherita '', d_description = None, d_due = Some 2000, d_priority = None\<rparr>
   \<and> \<not> quotaExceeded (store (managerOf (demoOrders 0)))
   \<and> (\<exists>s' new. TaskManager 5000 (store (addTask 1000 0
          \<lparr>d_name = '' Margherita '', d_description = None, d_due = Some 2000, d_priority = None\<rparr>
          (managerOf (demoOrders 0)))) = Inr s'
        \<and> tasks s' = demoOrders 0 @ [new]
        \<and> name new = ''Margherita''
        \<and> description new = []
        \<and> due new = Some 2000
        \<and> priority new = ''medium''
        \<and> status new = ''pending''
        \<and> completedAt new = None)"
proof -
  let ?d = "\<lparr>d_name = '' Margherita '', d_description = None, d_due = Some 2000, d_priority = None\<rparr>"
  let ?s = "managerOf (demoOrders 0)"
  have v: "validateOrderForm 1000 ?d"
    by (simp add: validateOrderForm_def validateField_required_def validateField_datetime_def
        trim_padded_Margherita)
  have q: "\<not> quotaExceeded (store ?s)" by simp
  from addTask_then_load [of 1000 ?d ?s 5000 0] v q
  have "\<exists>s' new. TaskManager 5000 (store (addTask 1000 0 ?d ?s)) = Inr s'
        \<and> tasks s' = tasks ?s @ [new]
        \<and> name new = trim (d_name ?d)
        \<and> description new = (case d_description ?d of None \<Rightarrow> [] | Some x \<Rightarrow> trim x)
        \<and> due new = d_due ?d
        \<and> priority new = (case d_priority ?d of None \<Rightarrow> ''medium''
                          | Some p \<Rightarrow> if p = [] then ''medium'' else p)
        \<and> status new = ''pending''
        \<and> completedAt new = None"
    by blast
  then have "\<exists>s' new. TaskManager 5000 (store (addTask 1000 0 ?d ?s)) = Inr s'
        \<and> tasks s' = demoOrders 0 @ [new]
        \<and> name new = ''Margherita''
        \<and> description new = []
        \<and> due new = Some 2000
        \<and> priority new = ''medium''
        \<and> status new = ''pending''
        \<and> completedAt new = None"
    by (simp add: trim_padded_Margherita)
  with v q show ?thesis by (intro conjI)
qed


text \<open>
  The claim as stated, with the record's name equal to the draft's, fails for a valid
  draft whose name has white space around it: the form hands the field's value over
  untrimmed, and the record holds the trimmed name.
\<close>

theorem addTask_trims_name_counterexample:
  "validateOrderForm 1000
     \<lparr>d_name = '' Margherita '', d_description = Some ''thin crust'', d_due = Some 2000,
      d_priority = Some ''high''\<rparr>
   \<and> map_sum id (map name \<circ> tasks)
       (TaskManager 5000 (store (addTask 1000 0
          \<lparr>d_name = '' Margherita '', d_description = Some ''thin crust'', d_due = Some 2000,
           d_priority = Some ''high''\<rparr>
          (managerOf [])))) = Inr [''Margherita'']
   \<and> ''Margherita'' \<noteq> d_name
        \<lparr>d_name = '' Margherita '', d_description = Some ''thin crust'', d_due = Some 2000,
         d_priority = Some ''high''\<rparr>"
proof -
  let ?d = "\<lparr>d_name = '' Margherita '', d_description = Some ''thin crust'', d_due = Some 2000,
      d_priority = Some ''high''\<rparr>"
  have v: "validateOrderForm 1000 ?d"
    by (simp add: validateOrderForm_def validateField_required_def validateField_datetime_def
        trim_padded_Margherita)
  have g: "getItem (store (addTask 1000 0 ?d (managerOf [])))
      = Some (JsonText (tasks (addTask 1000 0 ?d (managerOf []))))"
    by (rule store_addTask) simp
  have l: "map_sum id (map name \<circ> tasks)
       (TaskManager 5000 (store (addTask 1000 0 ?d (managerOf [])))) = Inr [''Margherita'']"
    by (simp add: TaskManager_JsonText [OF g] tasks_addTask trim_padded_Margherita)
  have n: "''Margherita'' \<noteq> d_name ?d" by simp
  from v l n show ?thesis by (intro conjI)
qed

subsection \<open>C3: completing twice\<close>

text \<open>
  C3. \<^verbatim>\<open>markAsCompleted\<close> is idempotent: for every state and identifier, a second call
  (at any later time) returns the state the first call produced; where the first call
  completed an order, that order is still completed after the second call and its
  completion time is the first call's.
\<close>

theorem markAsCompleted_idempotent:
  "markAsCompleted now2 taskId (markAsCompleted now1 taskId s) = markAsCompleted now1 taskId s
   \<and> (\<forall>i. findIndex (\<lambda>task. id' task = taskId) (tasks s) = Some i
          \<and> status (tasks s ! i) \<noteq> ''completed'' \<longrightarrow>
        status (tasks (markAsCompleted now2 taskId (markAsCompleted now1 taskId s)) ! i)
          = ''completed''
        \<and> completedAt (tasks (markAsCompleted now2 taskId (markAsCompleted now1 taskId s)) ! i)
          = Some now1)"
proof (intro conjI allI impI)
  show "markAsCompleted now2 taskId (markAsCompleted now1 taskId s)
        = markAsCompleted now1 taskId s"
    by (rule markAsCompleted_idem)
next
  fix i
  assume a: "findIndex (\<lambda>task. id' task = taskId) (tasks s) = Some i
    \<and> status (tasks s ! i) \<noteq> ''completed''"
  then have len: "i < length (tasks s)"
    using findIndex_Some by blast
  have t1: "tasks (markAsCompleted now1 taskId s)
      = (tasks s)[i := (tasks s ! i)\<lparr>status := ''completed'', completedAt := Some now1\<rparr>]"
    using a by (simp add: markAsCompleted_def Let_def)
  show "status (tasks (markAsCompleted now2 taskId (markAsCompleted now1 taskId s)) ! i)
          = ''completed''"
    using len by (simp add: markAsCompleted_idem t1)
  show "completedAt (tasks (markAsCompleted now2 taskId (markAsCompleted now1 taskId s)) ! i)
          = Some now1"
    using len by (simp add: markAsCompleted_idem t1)
qed

theorem markAsCompleted_idempotent_witness:
  "markAsCompleted 200 1001
     (markAsCompleted 100 1001
        (managerOf (demoOrders 0)))
   = markAsCompleted 100 1001
        (managerOf (demoOrders 0))
   \<and> findIndex (\<lambda>task. id' task = 1001) (demoOrders 0) = Some 0
   \<and> status (demoOrders 0 ! 0) \<noteq> ''completed''
   \<and> completedAt (tasks (markAsCompleted 200 1001
        (markAsCompleted 100 1001
          (managerOf (demoOrders 0)))) ! 0)
     = Some 100"
proof -
  have f: "findIndex (\<lambda>task. id' task = 1001) (demoOrders 0) = Some 0"
    by (simp add: demoOrders_def)
  have st: "status (demoOrders 0 ! 0) \<noteq> ''completed''"
    by (simp add: demoOrders_def)
  note th = markAsCompleted_idempotent [of 200 1001 100
      "(managerOf (demoOrders 0))"]
  from th have a: "markAsCompleted 200 1001
     (markAsCompleted 100 1001
        (managerOf (demoOrders 0)))
   = markAsCompleted 100 1001
        (managerOf (demoOrders 0))"
    by (rule conjunct1)
  from th [THEN conjunct2, THEN spec, of 0] f st
  have b: "completedAt (tasks (markAsCompleted 200 1001
        (markAsCompleted 100 1001
          (managerOf (demoOrders 0)))) ! 0)
     = Some 100"
    by simp
  from a b f st show ?thesis by (intro conjI)
qed

subsection \<open>C4: deleting\<close>

text \<open>
  C4, as amended. In a collection whose identifiers are pairwise distinct, a confirmed
  \<^verbatim>\<open>deleteTask\<close> of the identifier of a record \<open>t\<close> removes exactly that record: the
  result is the collection without \<open>t\<close>, one shorter. For an identifier no record
  has, a confirmed delete leaves the collection as it was, and a delete the user does
  not confirm changes nothing at all.
\<close>

theorem deleteTask_removes_the_record:
  "(distinct (map id' (tasks s)) \<and> t \<in> set (tasks s) \<and> id' t = taskId \<longrightarrow>
      tasks (deleteTask True taskId s) = remove1 t (tasks s)
      \<and> Suc (length (tasks (deleteTask True taskId s))) = length (tasks s)
      \<and> t \<notin> set (tasks (deleteTask True taskId s)))
   \<and> (taskId \<notin> id' ` set (tasks s) \<longrightarrow> tasks (deleteTask True taskId s) = tasks s)
   \<and> deleteTask False taskId s = s"
proof (intro conjI impI)
  assume a: "distinct (map id' (tasks s)) \<and> t \<in> set (tasks s) \<and> id' t = taskId"
  then have d: "distinct (tasks s)" by (auto simp: distinct_map)
  from a show r: "tasks (deleteTask True taskId s) = remove1 t (tasks s)"
    using filter_neq_remove1 [of id' "tasks s" t] by (auto simp: tasks_deleteTask)
  from a show "Suc (length (tasks (deleteTask True taskId s))) = length (tasks s)"
    by (simp add: r length_remove1) (cases "tasks s"; auto)
  from d show "t \<notin> set (tasks (deleteTask True taskId s))"
    by (simp add: r)
next
  assume "taskId \<notin> id' ` set (tasks s)"
  then have "\<forall>y \<in> set (tasks s). id' y \<noteq> taskId" by auto
  then show "tasks (deleteTask True taskId s) = tasks s"
    by (simp add: tasks_deleteTask filter_id_conv)
next
  show "deleteTask False taskId s = s" by (simp add: deleteTask_def)
qed


theorem deleteTask_removes_the_record_witness:
  "distinct (map id' (tasks (managerOf (demoOrders 0))))
   \<and> hd (demoOrders 0) \<in> set (tasks (managerOf (demoOrders 0)))
   \<and> id' (hd (demoOrders 0)) = 1001
   \<and> tasks (deleteTask True 1001 (managerOf (demoOrders 0))) = tl (demoOrders 0)
   \<and> length (tasks (deleteTask True 1001 (managerOf (demoOrders 0)))) = 7
   \<and> 9999 \<notin> id' ` set (tasks (managerOf (demoOrders 0)))
   \<and> tasks (deleteTask True 9999 (managerOf (demoOrders 0))) = demoOrders 0"
proof -
  note th = deleteTask_removes_the_record [of "managerOf (demoOrders 0)" "hd (demoOrders 0)" 1001]
  have h1: "distinct (map id' (tasks (managerOf (demoOrders 0))))"
    by (simp add: demoOrders_def)
  have h2: "hd (demoOrders 0) \<in> set (tasks (managerOf (demoOrders 0)))"
    by (simp add: demoOrders_def)
  have h3: "id' (hd (demoOrders 0)) = 1001"
    by (simp add: demoOrders_def)
  have r: "remove1 (hd (demoOrders 0)) (demoOrders 0) = tl (demoOrders 0)"
    by (simp add: demoOrders_def)
  from th h1 h2 h3 have c1: "tasks (deleteTask True 1001 (managerOf (demoOrders 0)))
      = remove1 (hd (demoOrders 0)) (tasks (managerOf (demoOrders 0)))"
    by blast
  from th h1 h2 h3 have c2: "Suc (length (tasks (deleteTask True 1001 (managerOf (demoOrders 0)))))
      = length (tasks (managerOf (demoOrders 0)))"
    by blast
  have h4: "9999 \<notin> id' ` set (tasks (managerOf (demoOrders 0)))"
    by (simp add: demoOrders_def)
  from deleteTask_removes_the_record [of "managerOf (demoOrders 0)" "hd (demoOrders 0)" 9999] h4
  have c3: "tasks (deleteTask True 9999 (managerOf (demoOrders 0))) = tasks (managerOf (demoOrders 0))"
    by blast
  from c2 have c2': "length (tasks (deleteTask True 1001 (managerOf (demoOrders 0)))) = 7"
    by (simp add: demoOrders_length)
  from c1 r have c1': "tasks (deleteTask True 1001 (managerOf (demoOrders 0))) = tl (demoOrders 0)"
    by simp
  from c3 have c3': "tasks (deleteTask True 9999 (managerOf (demoOrders 0))) = demoOrders 0"
    by simp
  from h1 h2 h3 c1' c2' h4 c3' show ?thesis by (intro conjI)
qed


text \<open>
  The claim as stated, for every collection, fails where two records share an
  identifier: two orders added within the same millisecond both get that millisecond
  as identifier, and one delete removes both.
\<close>

theorem deleteTask_duplicate_ids_counterexample:
  "map id' (tasks (addTask 1000 0 \<lparr>d_name = ''Margherita'', d_description = None, d_due = Some 2000, d_priority = None\<rparr>
        (addTask 1000 0 \<lparr>d_name = ''Margherita'', d_description = None, d_due = Some 2000, d_priority = None\<rparr>
           (managerOf [])))) = [1000, 1000]
   \<and> tasks (deleteTask True 1000
       (addTask 1000 0 \<lparr>d_name = ''Margherita'', d_description = None, d_due = Some 2000, d_priority = None\<rparr>
        (addTask 1000 0 \<lparr>d_name = ''Margherita'', d_description = None, d_due = Some 2000, d_priority = None\<rparr>
           (managerOf [])))) = []"
  by (simp add: addTask_def deleteTask_def Let_def)

subsection \<open>C5: the sweep\<close>

text \<open>
  C5, as amended. In a collection whose identifiers are pairwise distinct, one run of
  \<^verbatim>\<open>updateTimers\<close> keeps the length of the collection, and for the record at each
  index: if it is pending and due more than 60 minutes before the clock reading of its
  turn, it becomes completed, with the reading that \<^verbatim>\<open>markAsCompleted\<close> takes as its
  completion time, and is otherwise unchanged; if it is not pending, has no valid due
  time, or is due at most 60 minutes before the reading of its turn (or later), it
  stays as it was. Hence, when all readings of the sweep lie between \<open>t0\<close> and \<open>t1\<close>: a
  pending record due more than 60 minutes before \<open>t0\<close> becomes completed with a
  completion time between \<open>t0\<close> and \<open>t1\<close>, and a record that is not pending, has no
  valid due time or is due at most 60 minutes before \<open>t1\<close> stays as it was. For a clock
  that stands still during the sweep, \<open>t0 = t1\<close> is the sweep time. The example after
  it is a single pending record due 90 minutes before the sweep.
\<close>

theorem updateTimers_completes_overdue:
  "distinct (map id' (tasks s)) \<longrightarrow>
     length (tasks (updateTimers clock s)) = length (tasks s)
     \<and> (\<forall>i < length (tasks s).
          (status (tasks s ! i) = ''pending''
             \<and> (case due (tasks s ! i) of None \<Rightarrow> False
                 | Some d \<Rightarrow> 60 * 60000 < clock (2 * i) - d) \<longrightarrow>
           tasks (updateTimers clock s) ! i
             = (tasks s ! i)\<lparr>status := ''completed'', completedAt := Some (clock (2 * i + 1))\<rparr>)
        \<and> (status (tasks s ! i) \<noteq> ''pending''
             \<or> (case due (tasks s ! i) of None \<Rightarrow> True
                 | Some d \<Rightarrow> clock (2 * i) - d \<le> 60 * 60000) \<longrightarrow>
           tasks (updateTimers clock s) ! i = tasks s ! i))
     \<and> ((\<forall>k. t0 \<le> clock k \<and> clock k \<le> t1) \<longrightarrow>
         (\<forall>i < length (tasks s).
            (status (tasks s ! i) = ''pending''
               \<and> (case due (tasks s ! i) of None \<Rightarrow> False | Some d \<Rightarrow> 60 * 60000 < t0 - d) \<longrightarrow>
             (\<exists>c. t0 \<le> c \<and> c \<le> t1
                \<and> tasks (updateTimers clock s) ! i
                    = (tasks s ! i)\<lparr>status := ''completed'', completedAt := Some c\<rparr>))
          \<and> (status (tasks s ! i) \<noteq> ''pending''
               \<or> (case due (tasks s ! i) of None \<Rightarrow> True | Some d \<Rightarrow> t1 - d \<le> 60 * 60000) \<longrightarrow>
             tasks (updateTimers clock s) ! i = tasks s ! i)))"
proof
  assume d: "distinct (map id' (tasks s))"
  note nth = nth_updateTimers_distinct [OF d, of _ clock]
  have len: "length (tasks (updateTimers clock s)) = length (tasks s)"
    by (simp add: tasks_updateTimers_distinct [OF d])
  have marked: "tasks (updateTimers clock s) ! i
      = (tasks s ! i)\<lparr>status := ''completed'', completedAt := Some (clock (2 * i + 1))\<rparr>"
    if "i < length (tasks s)" "status (tasks s ! i) = ''pending''"
      "case due (tasks s ! i) of None \<Rightarrow> False | Some d \<Rightarrow> 60 * 60000 < clock (2 * i) - d"
    for i
    using that by (simp add: nth sweptAt_def)
  have kept: "tasks (updateTimers clock s) ! i = tasks s ! i"
    if "i < length (tasks s)"
      "status (tasks s ! i) \<noteq> ''pending''
       \<or> (case due (tasks s ! i) of None \<Rightarrow> True | Some d \<Rightarrow> clock (2 * i) - d \<le> 60 * 60000)"
    for i
    using that by (auto simp: nth sweptAt_def split: option.splits)
  have bounded_marked: "\<exists>c. t0 \<le> c \<and> c \<le> t1
        \<and> tasks (updateTimers clock s) ! i
            = (tasks s ! i)\<lparr>status := ''completed'', completedAt := Some c\<rparr>"
    if b: "\<forall>k. t0 \<le> clock k \<and> clock k \<le> t1" and i: "i < length (tasks s)"
      and p: "status (tasks s ! i) = ''pending''"
      and o: "case due (tasks s ! i) of None \<Rightarrow> False | Some d \<Rightarrow> 60 * 60000 < t0 - d"
    for i
  proof -
    from b have "t0 \<le> clock (2 * i)" by blast
    with o have "case due (tasks s ! i) of None \<Rightarrow> False
        | Some d \<Rightarrow> 60 * 60000 < clock (2 * i) - d"
      by (auto split: option.splits)
    with i p have "tasks (updateTimers clock s) ! i
        = (tasks s ! i)\<lparr>status := ''completed'', completedAt := Some (clock (2 * i + 1))\<rparr>"
      by (rule marked)
    moreover from b have "t0 \<le> clock (2 * i + 1) \<and> clock (2 * i + 1) \<le> t1" by blast
    ultimately show ?thesis by blast
  qed
  have bounded_kept: "tasks (updateTimers clock s) ! i = tasks s ! i"
    if b: "\<forall>k. t0 \<le> clock k \<and> clock k \<le> t1" and i: "i < length (tasks s)"
      and o: "status (tasks s ! i) \<noteq> ''pending''
         \<or> (case due (tasks s ! i) of None \<Rightarrow> True | Some d \<Rightarrow> t1 - d \<le> 60 * 60000)"
    for i
  proof -
    from b have "clock (2 * i) \<le> t1" by blast
    with o have "status (tasks s ! i) \<noteq> ''pending''
        \<or> (case due (tasks s ! i) of None \<Rightarrow> True | Some d \<Rightarrow> clock (2 * i) - d \<le> 60 * 60000)"
      by (auto split: option.splits)
    with i show ?thesis by (rule kept)
  qed
  from len marked kept bounded_marked bounded_kept
  show "length (tasks (updateTimers clock s)) = length (tasks s)
     \<and> (\<forall>i < length (tasks s).
          (status (tasks s ! i) = ''pending''
             \<and> (case due (tasks s ! i) of None \<Rightarrow> False
                 | Some d \<Rightarrow> 60 * 60000 < clock (2 * i) - d) \<longrightarrow>
           tasks (updateTimers clock s) ! i
             = (tasks s ! i)\<lparr>status := ''completed'', completedAt := Some (clock (2 * i + 1))\<rparr>)
        \<and> (status (tasks s ! i) \<noteq> ''pending''
             \<or> (case due (tasks s ! i) of None \<Rightarrow> True
                 | Some d \<Rightarrow> clock (2 * i) - d \<le> 60 * 60000) \<longrightarrow>
           tasks (updateTimers clock s) ! i = tasks s ! i))
     \<and> ((\<forall>k. t0 \<le> clock k \<and> clock k \<le> t1) \<longrightarrow>
         (\<forall>i < length (tasks s).
            (status (tasks s ! i) = ''pending''
               \<and> (case due (tasks s ! i) of None \<Rightarrow> False | Some d \<Rightarrow> 60 * 60000 < t0 - d) \<longrightarrow>
             (\<exists>c. t0 \<le> c \<and> c \<le> t1
                \<and> tasks (updateTimers clock s) ! i
                    = (tasks s ! i)\<lparr>status := ''completed'', completedAt := Some c\<rparr>))
          \<and> (status (tasks s ! i) \<noteq> ''pending''
               \<or> (case due (tasks s ! i) of None \<Rightarrow> True | Some d \<Rightarrow> t1 - d \<le> 60 * 60000) \<longrightarrow>
             tasks (updateTimers clock s) ! i = tasks s ! i)))"
    by (intro conjI allI impI) blast+
qed

theorem updateTimers_completes_overdue_witness:
  "distinct (map id' (tasks (managerOf
      [\<lparr>id' = 1, name = ''Margherita'', description = [], due = Some (10000000 - 90 * 60000),
        priority = ''medium'', status = ''pending'', created = 0, completedAt = None,
        location = None\<rparr>])))
   \<and> (\<forall>k :: nat. (10000000 :: int) \<le> (if k = 0 then 10000000 else 10000250)
          \<and> (if k = 0 then 10000000 else 10000250) \<le> (10000250 :: int))
   \<and> tasks (updateTimers (\<lambda>k. if k = 0 then 10000000 else 10000250) (managerOf
      [\<lparr>id' = 1, name = ''Margherita'', description = [], due = Some (10000000 - 90 * 60000),
        priority = ''medium'', status = ''pending'', created = 0, completedAt = None,
        location = None\<rparr>]))
     = [\<lparr>id' = 1, name = ''Margherita'', description = [], due = Some (10000000 - 90 * 60000),
        priority = ''medium'', status = ''completed'', created = 0,
        completedAt = Some 10000250, location = None\<rparr>]
   \<and> (\<exists>c. 10000000 \<le> c \<and> c \<le> 10000250
        \<and> completedAt (tasks (updateTimers (\<lambda>k. if k = 0 then 10000000 else 10000250) (managerOf
      [\<lparr>id' = 1, name = ''Margherita'', description = [], due = Some (10000000 - 90 * 60000),
        priority = ''medium'', status = ''pending'', created = 0, completedAt = None,
        location = None\<rparr>])) ! 0) = Some c)"
proof -
  let ?t = "\<lparr>id' = 1, name = ''Margherita'', description = [], due = Some (10000000 - 90 * 60000),
        priority = ''medium'', status = ''pending'', created = 0, completedAt = None,
        location = None\<rparr>"
  let ?clock = "\<lambda>k :: nat. if k = 0 then 10000000 else (10000250 :: int)"
  have d: "distinct (map id' (tasks (managerOf [?t])))" by simp
  have b: "\<forall>k. 10000000 \<le> ?clock k \<and> ?clock k \<le> 10000250" by simp
  note th = updateTimers_completes_overdue [of "managerOf [?t]" ?clock 10000000 10000250,
      THEN mp, OF d]
  from th have l: "length (tasks (updateTimers ?clock (managerOf [?t]))) = 1"
    by simp
  from th have "tasks (updateTimers ?clock (managerOf [?t])) ! 0
      = ?t\<lparr>status := ''completed'', completedAt := Some (?clock 1)\<rparr>"
    by simp
  with l have r: "tasks (updateTimers ?clock (managerOf [?t]))
      = [?t\<lparr>status := ''completed'', completedAt := Some 10000250\<rparr>]"
    by (cases "tasks (updateTimers ?clock (managerOf [?t]))") auto
  from th b have "\<exists>c. 10000000 \<le> c \<and> c \<le> 10000250
      \<and> tasks (updateTimers ?clock (managerOf [?t])) ! 0
          = ?t\<lparr>status := ''completed'', completedAt := Some c\<rparr>"
    by simp
  then have e: "\<exists>c. 10000000 \<le> c \<and> c \<le> 10000250
      \<and> completedAt (tasks (updateTimers ?clock (managerOf [?t])) ! 0) = Some c"
    by auto
  from d b r e show ?thesis by simp
qed

text \<open>
  The claim as stated fails in two ways. Where two records share an identifier, the
  sweep completes by identifier and \<^verbatim>\<open>markAsCompleted\<close> takes the first record that has
  it: two orders are added in the same millisecond; at the sweep, with the clock
  standing still, the second is 90 minutes overdue and the first is not due for 9
  minutes; the sweep completes the first and leaves the second pending. And where the
  clock advances by a millisecond from reading to reading, in a collection with
  distinct identifiers, the record that is 90 minutes overdue when the sweep starts at
  10000000 gets the completion time 10000001, and the record that is overdue by exactly
  60 minutes at the start is completed as well.
\<close>

theorem updateTimers_sweep_counterexample:
  "map id' (tasks (addTask 1000 0
       \<lparr>d_name = ''Margherita'', d_description = None, d_due = Some 61000, d_priority = None\<rparr>
       (addTask 1000 0
          \<lparr>d_name = ''Margherita'', d_description = None, d_due = Some 6001000, d_priority = None\<rparr>
          (managerOf [])))) = [1000, 1000]
   \<and> map status (tasks (addTask 1000 0
       \<lparr>d_name = ''Margherita'', d_description = None, d_due = Some 61000, d_priority = None\<rparr>
       (addTask 1000 0
          \<lparr>d_name = ''Margherita'', d_description = None, d_due = Some 6001000, d_priority = None\<rparr>
          (managerOf [])))) = [''pending'', ''pending'']
   \<and> map due (tasks (addTask 1000 0
       \<lparr>d_name = ''Margherita'', d_description = None, d_due = Some 61000, d_priority = None\<rparr>
       (addTask 1000 0
          \<lparr>d_name = ''Margherita'', d_description = None, d_due = Some 6001000, d_priority = None\<rparr>
          (managerOf [])))) = [Some (5461000 + 9 * 60000), Some (5461000 - 90 * 60000)]
   \<and> map status (tasks (updateTimers (\<lambda>k. 5461000) (addTask 1000 0
       \<lparr>d_name = ''Margherita'', d_description = None, d_due = Some 61000, d_priority = None\<rparr>
       (addTask 1000 0
          \<lparr>d_name = ''Margherita'', d_description = None, d_due = Some 6001000, d_priority = None\<rparr>
          (managerOf []))))) = [''completed'', ''pending'']
   \<and> map completedAt (tasks (updateTimers (\<lambda>k. 10000000 + int k) (managerOf
       [\<lparr>id' = 1, name = ''Margherita'', description = [], due = Some (10000000 - 90 * 60000),
         priority = ''medium'', status = ''pending'', created = 0, completedAt = None,
         location = None\<rparr>,
        \<lparr>id' = 2, name = ''Calzone'', description = [], due = Some (10000000 - 60 * 60000),
         priority = ''medium'', status = ''pending'', created = 0, completedAt = None,
         location = None\<rparr>]))) = [Some 10000001, Some 10000003]
   \<and> map status (tasks (updateTimers (\<lambda>k. 10000000 + int k) (managerOf
       [\<lparr>id' = 1, name = ''Margherita'', description = [], due = Some (10000000 - 90 * 60000),
         priority = ''medium'', status = ''pending'', created = 0, completedAt = None,
         location = None\<rparr>,
        \<lparr>id' = 2, name = ''Calzone'', description = [], due = Some (10000000 - 60 * 60000),
         priority = ''medium'', status = ''pending'', created = 0, completedAt = None,
         location = None\<rparr>]))) = [''completed'', ''completed'']"
  by (simp add: addTask_def updateTimers_def sweepStep_def markAsCompleted_def Let_def)

subsection \<open>C6: filtering\<close>

text \<open>
  C6. When every record is pending or completed, the pending records and the completed
  records together are exactly the records of the collection (as multisets and as sets,
  and no record is in both). For every collection, whatever its statuses, the filter
  \<^verbatim>\<open>all\<close> returns the collection itself, and whatever the filter, the result is a
  subsequence of the collection in its order.
\<close>

theorem filterTasks_partition:
  "((\<forall>t \<in> set ts. status t = ''pending'' \<or> status t = ''completed'') \<longrightarrow>
      mset (filterTasks (s\<lparr>currentFilter := ''pending''\<rparr>) ts)
        + mset (filterTasks (s\<lparr>currentFilter := ''completed''\<rparr>) ts) = mset ts
      \<and> set (filterTasks (s\<lparr>currentFilter := ''pending''\<rparr>) ts)
        \<union> set (filterTasks (s\<lparr>currentFilter := ''completed''\<rparr>) ts) = set ts
      \<and> set (filterTasks (s\<lparr>currentFilter := ''pending''\<rparr>) ts)
        \<inter> set (filterTasks (s\<lparr>currentFilter := ''completed''\<rparr>) ts) = {})
   \<and> filterTasks (s\<lparr>currentFilter := ''all''\<rparr>) ts = ts
   \<and> subseq (filterTasks s ts) ts"
proof (intro impI conjI)
  assume a: "\<forall>t \<in> set ts. status t = ''pending'' \<or> status t = ''completed''"
  then have "\<forall>t \<in> set ts. (status t = ''pending'' \<or> status t = ''completed'')
      \<and> \<not> (status t = ''pending'' \<and> status t = ''completed'')"
    by auto
  then show "mset (filterTasks (s\<lparr>currentFilter := ''pending''\<rparr>) ts)
       + mset (filterTasks (s\<lparr>currentFilter := ''completed''\<rparr>) ts) = mset ts"
    unfolding filterTasks_pending filterTasks_completed by (rule mset_filter_two)
  from a show "set (filterTasks (s\<lparr>currentFilter := ''pending''\<rparr>) ts)
       \<union> set (filterTasks (s\<lparr>currentFilter := ''completed''\<rparr>) ts) = set ts"
    unfolding filterTasks_pending filterTasks_completed by auto
  show "set (filterTasks (s\<lparr>currentFilter := ''pending''\<rparr>) ts)
       \<inter> set (filterTasks (s\<lparr>currentFilter := ''completed''\<rparr>) ts) = {}"
    unfolding filterTasks_pending filterTasks_completed by auto
next
  show "filterTasks (s\<lparr>currentFilter := ''all''\<rparr>) ts = ts"
    by (simp add: filterTasks_def)
next
  show "subseq (filterTasks s ts) ts"
    by (simp add: filterTasks_def)
qed

theorem filterTasks_partition_witness:
  "list_all (\<lambda>t. status t = ''pending'' \<or> status t = ''completed'') (demoOrders 0)
   \<and> mset (filterTasks ((managerOf [])\<lparr>currentFilter := ''pending''\<rparr>) (demoOrders 0))
       + mset (filterTasks ((managerOf [])\<lparr>currentFilter := ''completed''\<rparr>) (demoOrders 0))
     = mset (demoOrders 0)
   \<and> length (filterTasks ((managerOf [])\<lparr>currentFilter := ''pending''\<rparr>) (demoOrders 0)) = 6
   \<and> length (filterTasks ((managerOf [])\<lparr>currentFilter := ''completed''\<rparr>) (demoOrders 0)) = 2
   \<and> filterTasks ((managerOf [])\<lparr>currentFilter := ''all''\<rparr>)
        [\<lparr>id' = 1, name = ''Margherita'', description = [], due = None,
          priority = ''medium'', status = ''cancelled'', created = 0, completedAt = None,
          location = None\<rparr>]
      = [\<lparr>id' = 1, name = ''Margherita'', description = [], due = None,
          priority = ''medium'', status = ''cancelled'', created = 0, completedAt = None,
          location = None\<rparr>]
   \<and> subseq (filterTasks ((managerOf [])\<lparr>currentFilter := ''pending''\<rparr>)
        [\<lparr>id' = 1, name = ''Margherita'', description = [], due = None,
          priority = ''medium'', status = ''cancelled'', created = 0, completedAt = None,
          location = None\<rparr>])
        [\<lparr>id' = 1, name = ''Margherita'', description = [], due = None,
          priority = ''medium'', status = ''cancelled'', created = 0, completedAt = None,
          location = None\<rparr>]"
proof -
  let ?x = "[\<lparr>id' = 1, name = ''Margherita'', description = [], due = None,
          priority = ''medium'', status = ''cancelled'', created = 0, completedAt = None,
          location = None\<rparr>]"
  have h: "\<forall>t \<in> set (demoOrders 0). status t = ''pending'' \<or> status t = ''completed''"
    by (simp add: demoOrders_def)
  from filterTasks_partition [of "demoOrders 0" "managerOf []"] h
  have c: "mset (filterTasks ((managerOf [])\<lparr>currentFilter := ''pending''\<rparr>) (demoOrders 0))
       + mset (filterTasks ((managerOf [])\<lparr>currentFilter := ''completed''\<rparr>) (demoOrders 0))
     = mset (demoOrders 0)"
    by blast
  have l1: "length (filterTasks ((managerOf [])\<lparr>currentFilter := ''pending''\<rparr>) (demoOrders 0)) = 6"
    by (simp add: filterTasks_def demoOrders_def)
  have l2: "length (filterTasks ((managerOf [])\<lparr>currentFilter := ''completed''\<rparr>) (demoOrders 0)) = 2"
    by (simp add: filterTasks_def demoOrders_def)
  from h have h': "list_all (\<lambda>t. status t = ''pending'' \<or> status t = ''completed'') (demoOrders 0)"
    by (simp add: list_all_iff)
  from filterTasks_partition [of ?x "managerOf []"]
  have a: "filterTasks ((managerOf [])\<lparr>currentFilter := ''all''\<rparr>) ?x = ?x"
    by blast
  from filterTasks_partition [of ?x "(managerOf [])\<lparr>currentFilter := ''pending''\<rparr>"]
  have b: "subseq (filterTasks ((managerOf [])\<lparr>currentFilter := ''pending''\<rparr>) ?x) ?x"
    by blast
  from h' c l1 l2 a b show ?thesis by (intro conjI)
qed

subsection \<open>C7: sorting by due time\<close>

text \<open>
  C7, as amended. For every collection in which every record's due time is a valid
  date, \<^verbatim>\<open>sortTasks\<close> with the sort key \<^verbatim>\<open>due\<close> returns, whatever the engine, a permutation
  of the collection in which every record is due no later than the records after it,
  and the records that share a due time keep their relative order.
\<close>

theorem sortTasks_due_ascending:
  "(\<forall>t \<in> set ts. due t \<noteq> None) \<longrightarrow>
     mset (sortTasks engine lc (s\<lparr>currentSort := ''due''\<rparr>) ts) = mset ts
     \<and> sorted_wrt (\<lambda>a b. case (due a, due b) of (Some x, Some y) \<Rightarrow> x \<le> y | _ \<Rightarrow> False)
         (sortTasks engine lc (s\<lparr>currentSort := ''due''\<rparr>) ts)
     \<and> (\<forall>k. filter (\<lambda>t. due t = k) (sortTasks engine lc (s\<lparr>currentSort := ''due''\<rparr>) ts)
            = filter (\<lambda>t. due t = k) ts)"
proof
  assume v: "\<forall>t \<in> set ts. due t \<noteq> None"
  let ?f = "\<lambda>t. the (due t)"
  let ?r = "sortTasks engine lc (s\<lparr>currentSort := ''due''\<rparr>) ts"
  have eq: "?r = sort_key ?f ts"
    using v by (intro sortTasks_due) simp_all
  have m: "mset ?r = mset ts"
    by (simp add: eq)
  have "sorted (map ?f (sort_key ?f ts))"
    by (rule sorted_sort_key)
  then have "sorted_wrt (\<lambda>a b. ?f a \<le> ?f b) (sort_key ?f ts)"
    by (simp add: sorted_map)
  moreover have "case (due a, due b) of (Some x, Some y) \<Rightarrow> x \<le> y | _ \<Rightarrow> False"
    if "a \<in> set (sort_key ?f ts)" "b \<in> set (sort_key ?f ts)" "?f a \<le> ?f b" for a b
    using that v by (auto split: option.splits)
  ultimately have a: "sorted_wrt
      (\<lambda>a b. case (due a, due b) of (Some x, Some y) \<Rightarrow> x \<le> y | _ \<Rightarrow> False) ?r"
    unfolding eq by (rule sorted_wrt_mono_rel [rotated])
  have st: "filter (\<lambda>t. due t = k) ?r = filter (\<lambda>t. due t = k) ts" for k
  proof (cases k)
    case None
    with v have "filter (\<lambda>t. due t = k) ts = []" "filter (\<lambda>t. due t = k) (sort_key ?f ts) = []"
      by (auto simp: filter_empty_conv)
    then show ?thesis by (simp add: eq)
  next
    case (Some x)
    have "filter (\<lambda>t. due t = k) (sort_key ?f ts) = filter (\<lambda>t. ?f t = x) (sort_key ?f ts)"
      using v Some by (intro filter_cong) auto
    also have "\<dots> = filter (\<lambda>t. ?f t = x) ts"
      by (rule sort_key_stable)
    also have "\<dots> = filter (\<lambda>t. due t = k) ts"
      using v Some by (intro filter_cong) auto
    finally show ?thesis by (simp add: eq)
  qed
  from m a st
  show "mset ?r = mset ts
     \<and> sorted_wrt (\<lambda>a b. case (due a, due b) of (Some x, Some y) \<Rightarrow> x \<le> y | _ \<Rightarrow> False) ?r
     \<and> (\<forall>k. filter (\<lambda>t. due t = k) ?r = filter (\<lambda>t. due t = k) ts)"
    by blast
qed

theorem sortTasks_due_ascending_witness:
  "list_all (\<lambda>t. due t \<noteq> None) (demoOrders 0)
   \<and> map id' (sortTasks insertionSort (\<lambda>a b. 0) ((managerOf [])\<lparr>currentSort := ''due''\<rparr>)
        (demoOrders 0))
     = [1006, 1005, 1004, 1001, 1007, 1002, 1003, 1008]
   \<and> mset (sortTasks insertionSort (\<lambda>a b. 0) ((managerOf [])\<lparr>currentSort := ''due''\<rparr>)
        (demoOrders 0))
     = mset (demoOrders 0)
   \<and> sorted_wrt (\<lambda>a b. case (due a, due b) of (Some x, Some y) \<Rightarrow> x \<le> y | _ \<Rightarrow> False)
       (sortTasks insertionSort (\<lambda>a b. 0) ((managerOf [])\<lparr>currentSort := ''due''\<rparr>)
          (demoOrders 0))"
proof -
  have v: "\<forall>t \<in> set (demoOrders 0). due t \<noteq> None"
    by (simp add: demoOrders_def)
  then have v': "list_all (\<lambda>t. due t \<noteq> None) (demoOrders 0)"
    by (simp add: list_all_iff)
  have "sortTasks insertionSort (\<lambda>a b. 0) ((managerOf [])\<lparr>currentSort := ''due''\<rparr>) (demoOrders 0)
      = sort_key (\<lambda>t. the (due t)) (demoOrders 0)"
    using v by (intro sortTasks_due) simp_all
  then have a: "map id' (sortTasks insertionSort (\<lambda>a b. 0)
      ((managerOf [])\<lparr>currentSort := ''due''\<rparr>) (demoOrders 0))
     = [1006, 1005, 1004, 1001, 1007, 1002, 1003, 1008]"
    by (simp add: demoOrders_def)
  from sortTasks_due_ascending [of "demoOrders 0" insertionSort "\<lambda>a b. 0" "managerOf []"] v
  have b: "mset (sortTasks insertionSort (\<lambda>a b. 0) ((managerOf [])\<lparr>currentSort := ''due''\<rparr>)
        (demoOrders 0)) = mset (demoOrders 0)"
    and c: "sorted_wrt (\<lambda>a b. case (due a, due b) of (Some x, Some y) \<Rightarrow> x \<le> y | _ \<Rightarrow> False)
       (sortTasks insertionSort (\<lambda>a b. 0) ((managerOf [])\<lparr>currentSort := ''due''\<rparr>)
          (demoOrders 0))"
    by blast+
  from v' a b c show ?thesis by (intro conjI)
qed

text \<open>
  The claim as stated, for every collection, fails where a due time is not a valid
  date: \<^verbatim>\<open>addTask\<close> stores the draft's due string unchecked, and the comparator then
  returns NaN, which is not consistent. No order of such a collection with two or more
  records is ascending (\<open>invalid_due_not_ascending\<close> above), so no engine can return
  one. In the example the dues are 3000, an invalid date and 1000; an engine that takes
  NaN as zero returns the records as they stood, the one due at 3000 before the one
  due at 1000.
\<close>

theorem sortTasks_invalid_due_counterexample:
  "map due (sortTasks insertionSort (\<lambda>a b. 0) ((managerOf [])\<lparr>currentSort := ''due''\<rparr>)
      [\<lparr>id' = 1, name = ''Margherita'', description = [], due = Some 3000,
        priority = ''medium'', status = ''pending'', created = 0, completedAt = None,
        location = None\<rparr>,
       \<lparr>id' = 2, name = ''Calzone'', description = [], due = None,
        priority = ''medium'', status = ''pending'', created = 0, completedAt = None,
        location = None\<rparr>,
       \<lparr>id' = 3, name = ''Marinara'', description = [], due = Some 1000,
        priority = ''medium'', status = ''pending'', created = 0, completedAt = None,
        location = None\<rparr>])
     = [Some 3000, None, Some 1000]
   \<and> \<not> sorted_wrt (\<lambda>a b. case (due a, due b) of (Some x, Some y) \<Rightarrow> x \<le> y | _ \<Rightarrow> False)
       (sortTasks insertionSort (\<lambda>a b. 0) ((managerOf [])\<lparr>currentSort := ''due''\<rparr>)
      [\<lparr>id' = 1, name = ''Margherita'', description = [], due = Some 3000,
        priority = ''medium'', status = ''pending'', created = 0, completedAt = None,
        location = None\<rparr>,
       \<lparr>id' = 2, name = ''Calzone'', description = [], due = None,
        priority = ''medium'', status = ''pending'', created = 0, completedAt = None,
        location = None\<rparr>,
       \<lparr>id' = 3, name = ''Marinara'', description = [], due = Some 1000,
        priority = ''medium'', status = ''pending'', created = 0, completedAt = None,
        location = None\<rparr>])"
  by (simp add: sortTasks_def Array_sort_def consistentComparator_def insertionSort_def
      compareTasks_def)

subsection \<open>C8: a failing save\<close>

text \<open>
  C8. When the store refuses the write, \<^verbatim>\<open>saveTasks\<close> still returns: it shows the
  notification \<^verbatim>\<open>Error saving orders\<close> and leaves the array and the store as they
  were. Every operation that saves therefore has the same effect on the array as it
  has over a store that accepts the write.
\<close>

theorem saveTasks_failure_is_contained:
  "quotaExceeded (store s) \<longrightarrow>
     saveTasks s = showNotification ''Error saving orders'' ''danger'' s
     \<and> tasks (saveTasks s) = tasks s
     \<and> store (saveTasks s) = store s
     \<and> notifications (saveTasks s) = notifications s @ [(''Error saving orders'', ''danger'')]
     \<and> tasks (addTask now r d s)
         = tasks (addTask now r d (s\<lparr>store := (store s)\<lparr>quotaExceeded := False\<rparr>\<rparr>))
     \<and> tasks (editTask taskId u s)
         = tasks (editTask taskId u (s\<lparr>store := (store s)\<lparr>quotaExceeded := False\<rparr>\<rparr>))
     \<and> tasks (deleteTask c taskId s)
         = tasks (deleteTask c taskId (s\<lparr>store := (store s)\<lparr>quotaExceeded := False\<rparr>\<rparr>))
     \<and> tasks (markAsCompleted now taskId s)
         = tasks (markAsCompleted now taskId (s\<lparr>store := (store s)\<lparr>quotaExceeded := False\<rparr>\<rparr>))
     \<and> tasks (clearAll c s)
         = tasks (clearAll c (s\<lparr>store := (store s)\<lparr>quotaExceeded := False\<rparr>\<rparr>))
     \<and> tasks (updateTimers clock s)
         = tasks (updateTimers clock (s\<lparr>store := (store s)\<lparr>quotaExceeded := False\<rparr>\<rparr>))"
proof (intro impI conjI)
  assume q: "quotaExceeded (store s)"
  show "saveTasks s = showNotification ''Error saving orders'' ''danger'' s"
    using q by (rule saveTasks_quota)
  show "tasks (saveTasks s) = tasks s" by simp
  show "store (saveTasks s) = store s"
    using q by (simp add: saveTasks_quota showNotification_def)
  show "notifications (saveTasks s) = notifications s @ [(''Error saving orders'', ''danger'')]"
    using q by (simp add: saveTasks_quota showNotification_def)
  have t: "tasks s = tasks (s\<lparr>store := (store s)\<lparr>quotaExceeded := False\<rparr>\<rparr>)" by simp
  show "tasks (addTask now r d s)
         = tasks (addTask now r d (s\<lparr>store := (store s)\<lparr>quotaExceeded := False\<rparr>\<rparr>))"
    using t by (rule tasks_addTask_cong)
  show "tasks (editTask taskId u s)
         = tasks (editTask taskId u (s\<lparr>store := (store s)\<lparr>quotaExceeded := False\<rparr>\<rparr>))"
    using t by (rule tasks_editTask_cong)
  show "tasks (deleteTask c taskId s)
         = tasks (deleteTask c taskId (s\<lparr>store := (store s)\<lparr>quotaExceeded := False\<rparr>\<rparr>))"
    using t by (rule tasks_deleteTask_cong)
  show "tasks (markAsCompleted now taskId s)
         = tasks (markAsCompleted now taskId (s\<lparr>store := (store s)\<lparr>quotaExceeded := False\<rparr>\<rparr>))"
    using t by (rule tasks_markAsCompleted_cong)
  show "tasks (clearAll c s)
         = tasks (clearAll c (s\<lparr>store := (store s)\<lparr>quotaExceeded := False\<rparr>\<rparr>))"
    using t by (rule tasks_clearAll_cong)
  show "tasks (updateTimers clock s)
         = tasks (updateTimers clock (s\<lparr>store := (store s)\<lparr>quotaExceeded := False\<rparr>\<rparr>))"
    using t by (rule tasks_updateTimers_cong)
qed

theorem saveTasks_failure_is_contained_witness:
  "quotaExceeded (store ((managerOf [])\<lparr>store := \<lparr>pizzaOrders = None, quotaExceeded = True\<rparr>\<rparr>))
   \<and> tasks (saveTasks ((managerOf [])\<lparr>store := \<lparr>pizzaOrders = None, quotaExceeded = True\<rparr>\<rparr>)) = []
   \<and> notifications (saveTasks ((managerOf [])\<lparr>store := \<lparr>pizzaOrders = None, quotaExceeded = True\<rparr>\<rparr>))
       = [(''Error saving orders'', ''danger'')]
   \<and> map name (tasks (addTask 1000 0
         \<lparr>d_name = ''Margherita'', d_description = None, d_due = Some 2000, d_priority = None\<rparr>
         ((managerOf [])\<lparr>store := \<lparr>pizzaOrders = None, quotaExceeded = True\<rparr>\<rparr>)))
       = [''Margherita'']
   \<and> pizzaOrders (store (addTask 1000 0
         \<lparr>d_name = ''Margherita'', d_description = None, d_due = Some 2000, d_priority = None\<rparr>
         ((managerOf [])\<lparr>store := \<lparr>pizzaOrders = None, quotaExceeded = True\<rparr>\<rparr>)))
       = None"
proof -
  let ?s = "(managerOf [])\<lparr>store := \<lparr>pizzaOrders = None, quotaExceeded = True\<rparr>\<rparr>"
  let ?d = "\<lparr>d_name = ''Margherita'', d_description = None, d_due = Some 2000, d_priority = None\<rparr>"
  have q: "quotaExceeded (store ?s)" by simp
  note th = saveTasks_failure_is_contained [of ?s 1000 0 ?d, THEN mp, OF q]
  from th have a: "tasks (saveTasks ?s) = tasks ?s" by blast
  from th have b: "notifications (saveTasks ?s)
      = notifications ?s @ [(''Error saving orders'', ''danger'')]" by blast
  from th have c: "tasks (addTask 1000 0 ?d ?s)
      = tasks (addTask 1000 0 ?d (?s\<lparr>store := (store ?s)\<lparr>quotaExceeded := False\<rparr>\<rparr>))" by blast
  have c': "map name (tasks (addTask 1000 0 ?d (?s\<lparr>store := (store ?s)\<lparr>quotaExceeded := False\<rparr>\<rparr>)))
      = [''Margherita'']"
    by (simp add: addTask_def Let_def trim_Margherita)
  have e: "pizzaOrders (store (addTask 1000 0 ?d ?s)) = None"
    by (simp add: addTask_def Let_def saveTasks_def persist_def setItem_def showNotification_def)
  from a have a': "tasks (saveTasks ?s) = []" by simp
  from b have b': "notifications (saveTasks ?s) = [(''Error saving orders'', ''danger'')]" by simp
  from c c' have c'': "map name (tasks (addTask 1000 0 ?d ?s)) = [''Margherita'']" by simp
  from q a' b' c'' e show ?thesis by (intro conjI)
qed

subsection \<open>C9: identifiers\<close>

text \<open>
  C9, as amended. The demo identifiers are pairwise distinct. \<^verbatim>\<open>addTask\<close> appends the
  clock reading as the new identifier, so it keeps identifiers pairwise distinct when
  that reading is not yet an identifier of the collection; a sequence of adds keeps them
  distinct when its clock readings are pairwise distinct and none is an identifier of
  the collection. \<^verbatim>\<open>editTask\<close> keeps them distinct when the patch carries no \<^verbatim>\<open>id\<close>
  key. Completing, deleting, clearing and the sweep keep them distinct always.
\<close>

theorem identifiers_stay_distinct:
  "distinct (map id' (demoOrders now))
   \<and> map id' (tasks (addTask now r d s)) = map id' (tasks s) @ [now]
   \<and> (distinct (map id' (tasks s)) \<and> now \<notin> id' ` set (tasks s) \<longrightarrow>
        distinct (map id' (tasks (addTask now r d s))))
   \<and> (distinct (map id' (tasks s)) \<and> distinct (map fst adds)
        \<and> fst ` set adds \<inter> id' ` set (tasks s) = {} \<longrightarrow>
        distinct (map id' (tasks
          (foldl (\<lambda>s' a. addTask (fst a) (fst (snd a)) (snd (snd a)) s') s adds))))
   \<and> (distinct (map id' (tasks s)) \<and> p_id u = None \<longrightarrow>
        distinct (map id' (tasks (editTask taskId u s))))
   \<and> (distinct (map id' (tasks s)) \<longrightarrow> distinct (map id' (tasks (markAsCompleted now taskId s))))
   \<and> (distinct (map id' (tasks s)) \<longrightarrow> distinct (map id' (tasks (deleteTask c taskId s))))
   \<and> (distinct (map id' (tasks s)) \<longrightarrow> distinct (map id' (tasks (clearAll c s))))
   \<and> (distinct (map id' (tasks s)) \<longrightarrow> distinct (map id' (tasks (updateTimers clock s))))"
proof (intro conjI impI)
  show "distinct (map id' (demoOrders now))"
    by (simp add: demoOrders_def)
  show "map id' (tasks (addTask now r d s)) = map id' (tasks s) @ [now]"
    by (rule ids_addTask)
  show "distinct (map id' (tasks (addTask now r d s)))"
    if "distinct (map id' (tasks s)) \<and> now \<notin> id' ` set (tasks s)"
    using that by (simp add: ids_addTask)
  show "distinct (map id' (tasks
          (foldl (\<lambda>s' a. addTask (fst a) (fst (snd a)) (snd (snd a)) s') s adds)))"
    if "distinct (map id' (tasks s)) \<and> distinct (map fst adds)
        \<and> fst ` set adds \<inter> id' ` set (tasks s) = {}"
    using that by (auto simp: ids_foldl_addTask)
  show "distinct (map id' (tasks (editTask taskId u s)))"
    if "distinct (map id' (tasks s)) \<and> p_id u = None"
    using that by (simp add: ids_editTask)
  show "distinct (map id' (tasks (markAsCompleted now taskId s)))"
    if "distinct (map id' (tasks s))"
    using that by (simp add: ids_markAsCompleted)
  show "distinct (map id' (tasks (deleteTask c taskId s)))"
    if "distinct (map id' (tasks s))"
    using that by (simp add: ids_deleteTask)
  show "distinct (map id' (tasks (clearAll c s)))"
    if "distinct (map id' (tasks s))"
    using that by (simp add: ids_clearAll)
  show "distinct (map id' (tasks (updateTimers clock s)))"
    if "distinct (map id' (tasks s))"
    using that by (simp add: ids_updateTimers)
qed


theorem identifiers_stay_distinct_witness:
  "distinct (map id' (tasks (managerOf (demoOrders 0))))
   \<and> 1700000000000 \<notin> id' ` set (tasks (managerOf (demoOrders 0)))
   \<and> distinct (map id' (tasks (addTask 1700000000000 0
        \<lparr>d_name = ''Margherita'', d_description = None, d_due = Some 1700000900000, d_priority = None\<rparr>
        (managerOf (demoOrders 0)))))
   \<and> distinct (map fst
        [(1700000000000, 0, \<lparr>d_name = ''Margherita'', d_description = None,
            d_due = Some 1700000900000, d_priority = None\<rparr>),
         (1700000000001 :: int, 0 :: real, \<lparr>d_name = ''Margherita'', d_description = None,
            d_due = Some 1700000900000, d_priority = None\<rparr>)])
   \<and> distinct (map id' (tasks
        (foldl (\<lambda>s' a. addTask (fst a) (fst (snd a)) (snd (snd a)) s') (managerOf (demoOrders 0))
          [(1700000000000, 0, \<lparr>d_name = ''Margherita'', d_description = None,
              d_due = Some 1700000900000, d_priority = None\<rparr>),
           (1700000000001, 0, \<lparr>d_name = ''Margherita'', d_description = None,
              d_due = Some 1700000900000, d_priority = None\<rparr>)])))
   \<and> distinct (map id' (tasks (editTask 1001
        \<lparr>p_id = None, p_name = Some ''Calzone'', p_description = None, p_due = None,
         p_priority = None, p_status = None, p_created = None, p_completedAt = None,
         p_location = None\<rparr> (managerOf (demoOrders 0)))))
   \<and> distinct (map id' (tasks (markAsCompleted 1700000000000 1001 (managerOf (demoOrders 0)))))
   \<and> distinct (map id' (tasks (deleteTask True 1001 (managerOf (demoOrders 0)))))
   \<and> distinct (map id' (tasks (clearAll True (managerOf (demoOrders 0)))))
   \<and> distinct (map id' (tasks (updateTimers (\<lambda>k. 1700000000000 + int k)
        (managerOf (demoOrders 0)))))"
proof -
  let ?s = "managerOf (demoOrders 0)"
  let ?d = "\<lparr>d_name = ''Margherita'', d_description = None, d_due = Some 1700000900000,
             d_priority = None\<rparr>"
  let ?adds = "[(1700000000000 :: int, 0 :: real, ?d), (1700000000001, 0, ?d)]"
  let ?u = "\<lparr>p_id = None, p_name = Some ''Calzone'', p_description = None, p_due = None,
         p_priority = None, p_status = None, p_created = None, p_completedAt = None,
         p_location = None\<rparr>"
  have h1: "distinct (map id' (tasks ?s))" by (simp add: demoOrders_def)
  have h2: "1700000000000 \<notin> id' ` set (tasks ?s)" by (simp add: demoOrders_def)
  have h3: "distinct (map fst ?adds)" by simp
  have h4: "fst ` set ?adds \<inter> id' ` set (tasks ?s) = {}" by (simp add: demoOrders_def)
  have h5: "p_id ?u = None" by simp
  note th = identifiers_stay_distinct [of 1700000000000 0 ?d ?s ?adds ?u 1001 True
      "\<lambda>k. 1700000000000 + int k"]
  from th h1 h2 have c1: "distinct (map id' (tasks (addTask 1700000000000 0 ?d ?s)))" by blast
  from th h1 h3 h4 have c2: "distinct (map id' (tasks
        (foldl (\<lambda>s' a. addTask (fst a) (fst (snd a)) (snd (snd a)) s') ?s ?adds)))" by blast
  from th h1 h5 have c3: "distinct (map id' (tasks (editTask 1001 ?u ?s)))" by blast
  from th h1 have c4: "distinct (map id' (tasks (markAsCompleted 1700000000000 1001 ?s)))" by blast
  from th h1 have c5: "distinct (map id' (tasks (deleteTask True 1001 ?s)))" by blast
  from th h1 have c6: "distinct (map id' (tasks (clearAll True ?s)))" by blast
  from th h1 have c7: "distinct (map id' (tasks (updateTimers (\<lambda>k. 1700000000000 + int k) ?s)))"
    by blast
  from h1 h2 c1 h3 c2 c3 c4 c5 c6 c7 show ?thesis by (intro conjI)
qed


text \<open>
  The claim as stated fails for two adds within one millisecond: the collection after
  the first add has distinct identifiers, the collection after the second has not.
\<close>

theorem identifiers_same_millisecond_counterexample:
  "distinct (map id' (tasks (addTask 1000 0
       \<lparr>d_name = ''Margherita'', d_description = None, d_due = Some 2000, d_priority = None\<rparr>
       (managerOf []))))
   \<and> \<not> distinct (map id' (tasks (addTask 1000 0
       \<lparr>d_name = ''Margherita'', d_description = None, d_due = Some 2000, d_priority = None\<rparr>
       (addTask 1000 0
         \<lparr>d_name = ''Margherita'', d_description = None, d_due = Some 2000, d_priority = None\<rparr>
         (managerOf [])))))"
  by (simp add: addTask_def Let_def)

subsection \<open>C10: what addTask stores\<close>

text \<open>
  C10. The record \<^verbatim>\<open>addTask\<close> appends has the draft's name with the white space at both
  ends removed: the draft's name is white space, then the stored name, then white
  space, and a non-empty stored name neither starts nor ends with white space. A draft
  without description gives the empty description, a draft without priority the
  priority \<^verbatim>\<open>medium\<close>. For a value of \<^verbatim>\<open>Math.random()\<close> in [0, 1) the location is one of
  the eight (pairwise different) locations of the table, and it is the same whatever
  the draft, the time and the state.
\<close>

theorem addTask_normalizes_draft:
  "name (last (tasks (addTask now r d s))) = trim (d_name d)
   \<and> (\<exists>pre post. d_name d = pre @ trim (d_name d) @ post
         \<and> list_all isWhiteSpace pre \<and> list_all isWhiteSpace post)
   \<and> (trim (d_name d) \<noteq> [] \<longrightarrow>
         \<not> isWhiteSpace (hd (trim (d_name d))) \<and> \<not> isWhiteSpace (last (trim (d_name d))))
   \<and> (d_description d = None \<longrightarrow> description (last (tasks (addTask now r d s))) = [])
   \<and> (d_priority d = None \<longrightarrow> priority (last (tasks (addTask now r d s))) = ''medium'')
   \<and> (0 \<le> r \<and> r < 1 \<longrightarrow>
         location (last (tasks (addTask now r d s))) \<in> Some ` set locations)
   \<and> location (last (tasks (addTask now r d s)))
       = location (last (tasks (addTask now' r d' s')))
   \<and> length locations = 8 \<and> distinct locations"
proof (intro conjI impI)
  show "name (last (tasks (addTask now r d s))) = trim (d_name d)"
    by (simp add: tasks_addTask)
  show "\<exists>pre post. d_name d = pre @ trim (d_name d) @ post
         \<and> list_all isWhiteSpace pre \<and> list_all isWhiteSpace post"
    by (rule trim_decompose)
  show "\<not> isWhiteSpace (hd (trim (d_name d)))" if "trim (d_name d) \<noteq> []"
    using that by (rule trim_ends)
  show "\<not> isWhiteSpace (last (trim (d_name d)))" if "trim (d_name d) \<noteq> []"
    using that by (rule trim_ends)
  show "description (last (tasks (addTask now r d s))) = []" if "d_description d = None"
    using that by (simp add: tasks_addTask)
  show "priority (last (tasks (addTask now r d s))) = ''medium''" if "d_priority d = None"
    using that by (simp add: tasks_addTask)
  show "location (last (tasks (addTask now r d s))) \<in> Some ` set locations"
    if "0 \<le> r \<and> r < 1"
    using that getRandomAthensLocation_range [of r] by (simp add: tasks_addTask)
  show "location (last (tasks (addTask now r d s)))
       = location (last (tasks (addTask now' r d' s')))"
    by (simp add: tasks_addTask)
  show "length locations = 8" by (simp add: locations_def)
  show "distinct locations" by (simp add: locations_def)
qed

theorem addTask_normalizes_draft_witness:
  "trim (d_name \<lparr>d_name = '' Margherita '', d_description = None, d_due = Some 2000,
                  d_priority = None\<rparr>) \<noteq> []
   \<and> d_description \<lparr>d_name = '' Margherita '', d_description = None, d_due = Some 2000,
                  d_priority = None\<rparr> = None
   \<and> d_priority \<lparr>d_name = '' Margherita '', d_description = None, d_due = Some 2000,
                  d_priority = None\<rparr> = None
   \<and> (0 :: real) \<le> 7 / 8 \<and> (7 / 8 :: real) < 1
   \<and> name (last (tasks (addTask 1000 (7 / 8)
        \<lparr>d_name = '' Margherita '', d_description = None, d_due = Some 2000, d_priority = None\<rparr>
        (managerOf (demoOrders 0))))) = ''Margherita''
   \<and> description (last (tasks (addTask 1000 (7 / 8)
        \<lparr>d_name = '' Margherita '', d_description = None, d_due = Some 2000, d_priority = None\<rparr>
        (managerOf (demoOrders 0))))) = []
   \<and> priority (last (tasks (addTask 1000 (7 / 8)
        \<lparr>d_name = '' Margherita '', d_description = None, d_due = Some 2000, d_priority = None\<rparr>
        (managerOf (demoOrders 0))))) = ''medium''
   \<and> location (last (tasks (addTask 1000 (7 / 8)
        \<lparr>d_name = '' Margherita '', d_description = None, d_due = Some 2000, d_priority = None\<rparr>
        (managerOf (demoOrders 0))))) \<in> Some ` set locations
   \<and> location (last (tasks (addTask 1000 (7 / 8)
        \<lparr>d_name = '' Margherita '', d_description = None, d_due = Some 2000, d_priority = None\<rparr>
        (managerOf (demoOrders 0))))) = Some ''Athens Center''"
proof -
  let ?d = "\<lparr>d_name = '' Margherita '', d_description = None, d_due = Some 2000, d_priority = None\<rparr>"
  let ?s = "managerOf (demoOrders 0)"
  have h1: "trim (d_name ?d) \<noteq> []" by (simp add: trim_padded_Margherita)
  have h2: "d_description ?d = None" by simp
  have h3: "d_priority ?d = None" by simp
  have h4: "(0 :: real) \<le> 7 / 8" by simp
  have h5: "(7 / 8 :: real) < 1" by simp
  note th = addTask_normalizes_draft [of 1000 "7 / 8" ?d ?s 1000 ?d ?s]
  from th have "name (last (tasks (addTask 1000 (7 / 8) ?d ?s))) = trim (d_name ?d)"
    by blast
  then have c1: "name (last (tasks (addTask 1000 (7 / 8) ?d ?s))) = ''Margherita''"
    by (simp add: trim_padded_Margherita)
  from th h2 have c2: "description (last (tasks (addTask 1000 (7 / 8) ?d ?s))) = []"
    by blast
  from th h3 have c3: "priority (last (tasks (addTask 1000 (7 / 8) ?d ?s))) = ''medium''"
    by blast
  from th h4 h5
  have c4: "location (last (tasks (addTask 1000 (7 / 8) ?d ?s))) \<in> Some ` set locations"
    by blast
  have c5: "location (last (tasks (addTask 1000 (7 / 8) ?d ?s))) = Some ''Athens Center''"
    by (simp add: tasks_addTask getRandomAthensLocation_def locations_def)
  from h1 h2 h3 h4 h5 c1 c2 c3 c4 c5 show ?thesis by (intro conjI)
qed

end
